(* ===== verification/Prelude.thy ===== *)
theory Prelude
  imports Main
begin

text \<open>
  Shared vocabulary of the development. The Rust code under
  \<^verbatim>\<open>src/apollo-router/src/configuration/yaml.rs\<close> works on \<^verbatim>\<open>Vec\<close> and
  \<^verbatim>\<open>IndexMap\<close> through a handful of standard-library calls: \<^verbatim>\<open>last\<close>,
  \<^verbatim>\<open>last_mut\<close>, \<^verbatim>\<open>pop\<close>, \<^verbatim>\<open>push\<close> and \<^verbatim>\<open>get\<close>. This theory fixes one
  HOL reading of each call, total and with the out-of-range case written out
  (\<open>None\<close> where Rust returns \<^verbatim>\<open>None\<close>), together with the list lemmas the
  component theories share. A Rust vector is a HOL list whose last element is the
  top: \<^verbatim>\<open>push x\<close> is \<open>xs @ [x]\<close>.
\<close>

named_theorems vec_simps "evaluation rules of the Vec helpers on a pushed vector"

type_synonym anchor_id = nat

subsection \<open>Vec and IndexMap accessors\<close>

text \<open>\<^verbatim>\<open>Vec::last\<close> and \<^verbatim>\<open>IndexMap::last\<close>: the last element, if any.\<close>

definition vec_last :: "'a list \<Rightarrow> 'a option" where
  "vec_last xs = (if xs = [] then None else Some (last xs))"

text \<open>\<^verbatim>\<open>Vec::pop\<close>: the last element and the vector without it.\<close>

definition vec_pop :: "'a list \<Rightarrow> ('a \<times> 'a list) option" where
  "vec_pop xs = (if xs = [] then None else Some (last xs, butlast xs))"

text \<open>\<^verbatim>\<open>Vec::get\<close> / \<^verbatim>\<open>slice::get\<close>: a bounds-checked read.\<close>

definition vec_get :: "'a list \<Rightarrow> nat \<Rightarrow> 'a option" where
  "vec_get xs i = (if i < length xs then Some (xs ! i) else None)"

lemma vec_last_Nil [simp, vec_simps]: "vec_last [] = None"
  by (simp add: vec_last_def)

lemma vec_last_snoc [simp, vec_simps]: "vec_last (xs @ [x]) = Some x"
  by (simp add: vec_last_def)

lemma vec_pop_Nil [simp, vec_simps]: "vec_pop [] = None"
  by (simp add: vec_pop_def)

lemma vec_pop_snoc [simp, vec_simps]: "vec_pop (xs @ [x]) = Some (x, xs)"
  by (simp add: vec_pop_def)

lemma vec_last_Cons [simp, vec_simps]: "vec_last (x # xs) = Some (last (x # xs))"
  by (simp add: vec_last_def)

lemma vec_pop_Cons [simp, vec_simps]: "vec_pop (x # xs) = Some (last (x # xs), butlast (x # xs))"
  by (simp add: vec_pop_def)

lemma vec_pop_snoc2 [simp, vec_simps]: "vec_pop (xs @ [x, y]) = Some (y, xs @ [x])"
  using vec_pop_snoc [of "xs @ [x]" y] by simp

lemma vec_last_snoc2 [simp, vec_simps]: "vec_last (xs @ [x, y]) = Some y"
  using vec_last_snoc [of "xs @ [x]" y] by simp

lemma vec_last_None_iff [simp]: "vec_last xs = None \<longleftrightarrow> xs = []"
  by (simp add: vec_last_def)

lemma vec_pop_None_iff [simp]: "vec_pop xs = None \<longleftrightarrow> xs = []"
  by (simp add: vec_pop_def)

lemma vec_last_Some: "vec_last xs = Some x \<Longrightarrow> \<exists>ys. xs = ys @ [x]"
  by (metis append_butlast_last_id option.distinct(1) option.inject vec_last_def)

lemma vec_pop_Some: "vec_pop xs = Some (x, ys) \<Longrightarrow> xs = ys @ [x]"
  by (metis append_butlast_last_id option.distinct(1) option.inject prod.inject vec_pop_def)

lemma vec_last_in_set: "vec_last xs = Some x \<Longrightarrow> x \<in> set xs"
  using vec_last_Some by fastforce

lemma vec_get_Some_iff: "vec_get xs i = Some x \<longleftrightarrow> i < length xs \<and> xs ! i = x"
  by (auto simp: vec_get_def)

lemma vec_get_Nil [simp, vec_simps]: "vec_get [] i = None"
  by (simp add: vec_get_def)

lemma vec_get_Cons_0 [simp, vec_simps]: "vec_get (x # xs) 0 = Some x"
  by (simp add: vec_get_def)

lemma vec_get_Cons_Suc [simp, vec_simps]: "vec_get (x # xs) (Suc i) = vec_get xs i"
  by (simp add: vec_get_def)

subsection \<open>Shared list facts\<close>

text \<open>Sizes of elements, for termination proofs over values nested in lists.\<close>

lemma size_list_elem_less: "x \<in> set xs \<Longrightarrow> f x < Suc (size_list f xs)"
  by (rule le_imp_less_Suc [OF size_list_estimation' [OF _ order_refl]])

lemma ran_fun_upd_pred:
  "\<forall>v\<in>ran m. P v \<Longrightarrow> P x \<Longrightarrow> \<forall>v\<in>ran (m(k \<mapsto> x)). P v"
  by (auto simp: ran_def)

lemma isl_map_sum [simp]: "isl (map_sum f g r) = isl r"
  by (cases r) simp_all

lemma map_sum_eq_Inr: "map_sum f g r = Inr y \<longleftrightarrow> (\<exists>x. r = Inr x \<and> y = g x)"
  by (cases r) auto

text \<open>\<open>those\<close> (collecting a list of options, as \<^verbatim>\<open>collect::<Option<Vec<_>>>\<close> or a
  loop of \<^verbatim>\<open>unwrap\<close>s) succeeds with \<open>ys\<close> exactly when every element maps to the
  element of \<open>ys\<close> at its place.\<close>

lemma those_map_Some: "those (map f xs) = Some ys \<longleftrightarrow> list_all2 (\<lambda>x y. f x = Some y) xs ys"
  by (induction xs arbitrary: ys) (auto simp: list_all2_Cons1 split: option.splits)

lemma list_all2_in_set1: "list_all2 P xs ys \<Longrightarrow> x \<in> set xs \<Longrightarrow> \<exists>y\<in>set ys. P x y"
  by (induction xs ys rule: list_all2_induct) auto

lemma list_all2_map_eq:
  "list_all2 P xs ys \<Longrightarrow> (\<And>x y. P x y \<Longrightarrow> h y = h' x) \<Longrightarrow> map h ys = map h' xs"
  by (induction xs ys rule: list_all2_induct) simp_all

text \<open>A short-circuiting run over a list, as a Rust loop with \<^verbatim>\<open>?\<close>: the step
  either fails with \<open>Inl\<close> or hands the next state on.\<close>

fun run_sum :: "('s \<Rightarrow> 'a \<Rightarrow> 'e + 's) \<Rightarrow> 's \<Rightarrow> 'a list \<Rightarrow> 'e + 's" where
  "run_sum f s [] = Inr s"
| "run_sum f s (x # xs) = (case f s x of Inl e \<Rightarrow> Inl e | Inr s' \<Rightarrow> run_sum f s' xs)"

lemma run_sum_append:
  "run_sum f s (xs @ ys) = (case run_sum f s xs of Inl e \<Rightarrow> Inl e | Inr s' \<Rightarrow> run_sum f s' ys)"
  by (induction xs arbitrary: s) (auto split: sum.splits)

lemma run_sum_Inr_append:
  "run_sum f s xs = Inr s' \<Longrightarrow> run_sum f s (xs @ ys) = run_sum f s' ys"
  by (simp add: run_sum_append)

lemma run_sum_invariant:
  assumes "\<And>s x s'. P s \<Longrightarrow> f s x = Inr s' \<Longrightarrow> P s'"
  shows "P s \<Longrightarrow> run_sum f s xs = Inr s' \<Longrightarrow> P s'"
proof (induction xs arbitrary: s)
  case Nil
  then show ?case by simp
next
  case (Cons x xs)
  then show ?case using assms by (auto split: sum.splits)
qed

end
