(* ===== verification/Yaml_Value.thy ===== *)
theory Yaml_Value
  imports Prelude
begin

text \<open>
  The document value model of \<^verbatim>\<open>src/apollo-router/src/configuration/yaml.rs\<close>:
  source positions (\<^verbatim>\<open>yaml_rust::scanner::Marker\<close>), mapping keys (\<^verbatim>\<open>Label\<close>,
  whose equality ignores the position), values (\<^verbatim>\<open>Value\<close>: string leaf, sequence,
  mapping), the \<^verbatim>\<open>IndexMap\<close> operations the builder calls, and the one query of
  the model, \<^verbatim>\<open>Value::end_marker\<close>. The lemmas show that an \<^verbatim>\<open>IndexMap\<close>
  insert keeps first-occurrence order and distinct key names, that lookup after insert
  returns the inserted value, and that \<open>end_marker\<close> is the last position of the node
  and its descendant values in document order.
\<close>

subsection \<open>Positions, labels and values\<close>

text \<open>\<^verbatim>\<open>yaml_rust::scanner::Marker\<close>: byte index, line and column.\<close>

record marker =
  index :: nat
  line :: nat
  col :: nat

text \<open>\<^verbatim>\<open>struct Label { name, marker }\<close>.\<close>

record label =
  name :: string
  marker :: "marker option"

text \<open>\<^verbatim>\<open>#[derivative(Hash, PartialEq)]\<close> with the marker ignored: two labels are
  the same key when their names agree.\<close>

definition label_eq :: "label \<Rightarrow> label \<Rightarrow> bool" where
  "label_eq a b \<longleftrightarrow> name a = name b"

text \<open>\<^verbatim>\<open>impl From<String> for Label\<close>: a label with no position.\<close>

definition label_from :: "string \<Rightarrow> label" where
  "label_from n = \<lparr>name = n, marker = None\<rparr>"

text \<open>\<^verbatim>\<open>enum Value\<close>; the commented-out Null, Bool and Number variants of the
  source are not part of the type.\<close>

datatype yvalue =
    String string marker
  | Sequence "yvalue list" marker
  | Mapping "label option" "(label \<times> yvalue) list" marker

type_synonym 'v index_map = "(label \<times> 'v) list"

subsection \<open>IndexMap keyed by labels\<close>

text \<open>
  \<^verbatim>\<open>IndexMap::insert\<close>: if an equal key is present, its value is replaced in place
  and the stored key (with its own marker) is kept; otherwise the entry is appended.
  \<^verbatim>\<open>IndexMap::get\<close>: the value of the equal key.
\<close>

fun im_insert :: "label \<Rightarrow> 'v \<Rightarrow> 'v index_map \<Rightarrow> 'v index_map" where
  "im_insert k v [] = [(k, v)]"
| "im_insert k v ((k', v') # es) =
     (if label_eq k' k then (k', v) # es else (k', v') # im_insert k v es)"

fun im_get :: "label \<Rightarrow> 'v index_map \<Rightarrow> 'v option" where
  "im_get k [] = None"
| "im_get k ((k', v) # es) = (if label_eq k' k then Some v else im_get k es)"

abbreviation im_names :: "'v index_map \<Rightarrow> string list" where
  "im_names es \<equiv> map (\<lambda>e. name (fst e)) es"

subsection \<open>The end position of a node\<close>

text \<open>\<^verbatim>\<open>Value::end_marker\<close>: a leaf's own marker; for a container, the end marker
  of its last child, or its own marker when it has none.\<close>

function end_marker :: "yvalue \<Rightarrow> marker" where
  "end_marker (String _ m) = m"
| "end_marker (Sequence v m) =
     (case vec_last v of None \<Rightarrow> m | Some l \<Rightarrow> end_marker l)"
| "end_marker (Mapping _ v m) =
     (case vec_last v of None \<Rightarrow> m | Some (_, val) \<Rightarrow> end_marker val)"
  by pat_completeness auto
termination
proof (relation "measure size")
  show "wf (measure size)" by simp
next
  fix v :: "yvalue list" and m l
  assume "vec_last v = Some l"
  then have "l \<in> set v" by (rule vec_last_in_set)
  then show "(l, Sequence v m) \<in> measure size"
    by (simp add: size_list_elem_less)
next
  fix v :: "(label \<times> yvalue) list" and m l x k sl
  assume "vec_last v = Some x" "(k, l) = x"
  then have "(k, l) \<in> set v" by (simp add: vec_last_in_set)
  then show "(l, Mapping sl v m) \<in> measure size"
    using size_list_elem_less [of "(k, l)" v "size_prod (\<lambda>_. 0) size"] by simp
qed

text \<open>Every position recorded in a node, in document order.\<close>

fun markers :: "yvalue \<Rightarrow> marker list" where
  "markers (String _ m) = [m]"
| "markers (Sequence vs m) = m # concat (map markers vs)"
| "markers (Mapping _ es m) = m # concat (map markers (map snd es))"

subsection \<open>Well-formed values\<close>

text \<open>The type invariant of the value model: in every mapping the key names are
  distinct (an \<^verbatim>\<open>IndexMap\<close> never holds two equal keys).\<close>

fun wf_value :: "yvalue \<Rightarrow> bool" where
  "wf_value (String _ _) = True"
| "wf_value (Sequence vs _) = list_all wf_value vs"
| "wf_value (Mapping _ es _) = (distinct (im_names es) \<and> list_all wf_value (map snd es))"

subsection \<open>Lemmas on IndexMap\<close>

lemma label_eq_sym: "label_eq a b = label_eq b a"
  by (auto simp: label_eq_def)

lemma im_get_insert:
  "im_get k' (im_insert k v es) = (if label_eq k k' then Some v else im_get k' es)"
  by (induction es) (auto simp: label_eq_def)

lemma im_insert_fresh:
  "name k \<notin> set (im_names es) \<Longrightarrow> im_insert k v es = es @ [(k, v)]"
  by (induction es) (auto simp: label_eq_def)

lemma im_names_insert_present:
  "name k \<in> set (im_names es) \<Longrightarrow> im_names (im_insert k v es) = im_names es"
proof (induction es)
  case Nil
  then show ?case by simp
next
  case (Cons e es)
  obtain a b where e: "e = (a, b)" by fastforce
  show ?case
  proof (cases "name a = name k")
    case True
    with e show ?thesis by (simp add: label_eq_def)
  next
    case False
    with Cons.prems e have "name k \<in> set (im_names es)" by auto
    with Cons.IH False e show ?thesis by (simp add: label_eq_def)
  qed
qed

lemma im_names_insert:
  "im_names (im_insert k v es) =
     (if name k \<in> set (im_names es) then im_names es else im_names es @ [name k])"
  by (simp add: im_insert_fresh im_names_insert_present)

lemma distinct_im_insert:
  "distinct (im_names es) \<Longrightarrow> distinct (im_names (im_insert k v es))"
  by (simp add: im_names_insert)

lemma im_insert_member:
  "x \<in> set (im_insert k v es) \<Longrightarrow> snd x = v \<or> x \<in> set es"
  by (induction es) (auto split: if_splits)

lemma list_all_wf_im_insert:
  "list_all wf_value (map snd es) \<Longrightarrow> wf_value v \<Longrightarrow>
   list_all wf_value (map snd (im_insert k v es))"
  by (induction es) auto

lemma wf_mapping_insert:
  "wf_value (Mapping sl es m) \<Longrightarrow> wf_value v \<Longrightarrow> wf_value (Mapping sl (im_insert k v es) m)"
  by (simp add: distinct_im_insert list_all_wf_im_insert)

lemma wf_sequence_push:
  "wf_value (Sequence vs m) \<Longrightarrow> wf_value v \<Longrightarrow> wf_value (Sequence (vs @ [v]) m)"
  by simp

lemma im_get_distinct_member:
  "distinct (im_names es) \<Longrightarrow> (k, v) \<in> set es \<Longrightarrow> im_get (label_from (name k)) es = Some v"
  by (induction es) (auto simp: label_eq_def label_from_def image_iff)

lemma im_get_None_iff:
  "im_get k es = None \<longleftrightarrow> name k \<notin> set (im_names es)"
  by (induction es) (auto simp: label_eq_def split: if_splits)

lemma im_get_in_values: "im_get k es = Some v \<Longrightarrow> v \<in> set (map snd es)"
  by (induction es) (auto split: if_splits)

subsection \<open>End positions\<close>

lemma markers_nonempty [simp]: "markers v \<noteq> []"
  by (cases v) simp_all

text \<open>
  C14. \<^verbatim>\<open>end_marker\<close> is the last of the positions of a node and of all the
  values below it, listed in document order (\<open>markers\<close>): the position of its
  deepest last descendant, or the node's own position when the node is a scalar or an
  empty container.
\<close>

theorem end_marker_is_last_marker: "end_marker v = last (markers v)"
proof (induction v rule: end_marker.induct)
  case (2 v m)
  show ?case
  proof (cases "vec_last v")
    case (Some l)
    then obtain ys where "v = ys @ [l]" by (blast dest: vec_last_Some)
    with Some "2.IH" show ?thesis by (simp add: markers_nonempty)
  qed simp
next
  case (3 sl v m)
  show ?case
  proof (cases "vec_last v")
    case (Some x)
    obtain k l where x: "x = (k, l)" by fastforce
    with Some obtain ys where "v = ys @ [(k, l)]" by (blast dest: vec_last_Some)
    with Some x "3.IH" show ?thesis by (simp add: markers_nonempty)
  qed simp
qed simp

end
