(* ===== verification/Yaml_Builder.thy ===== *)
theory Yaml_Builder
  imports Yaml_Value
begin

text \<open>
  The marked document builder of \<^verbatim>\<open>src/apollo-router/src/configuration/yaml.rs\<close>:
  the state \<^verbatim>\<open>MarkedYaml\<close> (anchor table, pending key, build stack, root), its
  three private mutators \<^verbatim>\<open>end_container\<close>, \<^verbatim>\<open>add_value\<close> and
  \<^verbatim>\<open>add_alias_value\<close>, the event handler \<^verbatim>\<open>on_event\<close> of
  \<^verbatim>\<open>MarkedEventReceiver\<close>, the driver loop of \<^verbatim>\<open>yaml_rust::Parser::load\<close>
  that feeds it, and \<^verbatim>\<open>parse\<close>. The \<^verbatim>\<open>expect\<close> of \<^verbatim>\<open>end_container\<close>
  is a Rust panic; here it is the value \<open>Inl (Panic msg)\<close>, so that the lemmas can
  say exactly which event streams reach it. Warnings (\<^verbatim>\<open>tracing::warn!\<close>) have no
  effect on the state and are not modelled.
\<close>

subsection \<open>Events of the YAML parser\<close>

text \<open>\<^verbatim>\<open>yaml_rust::scanner::TScalarStyle\<close>.\<close>

datatype tscalar_style = Any | Plain | SingleQuoted | DoubleQuoted | LiteralStyle | Foled

text \<open>\<^verbatim>\<open>yaml_rust::Event\<close>. The numbers are anchor ids (0: no anchor). A scalar's
  tag is a \<^verbatim>\<open>TokenType::Tag(handle, suffix)\<close>, kept as a pair of strings.\<close>

datatype event =
    Nothing
  | StreamStart
  | StreamEnd
  | DocumentStart
  | DocumentEnd
  | Alias anchor_id
  | Scalar string tscalar_style anchor_id "(string \<times> string) option"
  | SequenceStart anchor_id
  | SequenceEnd
  | MappingStart anchor_id
  | MappingEnd

subsection \<open>Builder state\<close>

type_synonym frame = "label option \<times> yvalue \<times> anchor_id"

text \<open>\<^verbatim>\<open>struct MarkedYaml\<close>; the vector's last frame is the innermost open
  container.\<close>

record marked_yaml =
  anchors :: "anchor_id \<rightharpoonup> yvalue"
  current_label :: "label option"
  object_stack :: "frame list"
  root :: "yvalue option"

text \<open>\<^verbatim>\<open>#[derive(Default)]\<close>.\<close>

definition marked_yaml_default :: marked_yaml where
  "marked_yaml_default =
     \<lparr>anchors = Map.empty, current_label = None, object_stack = [], root = None\<rparr>"

text \<open>A Rust panic, with its message.\<close>

datatype panic = Panic string

subsection \<open>The mutators\<close>

text \<open>\<^verbatim>\<open>MarkedYaml::end_container\<close>: pop the innermost frame (panicking on an empty
  stack), record its value under the frame's anchor id, and hand it to the new
  innermost container: under the frame's key if that container is a mapping, appended
  if it is a sequence and the frame has no key. Otherwise the value is returned, and
  the caller makes it the root.\<close>

definition end_container :: "marked_yaml \<Rightarrow> panic + (marked_yaml \<times> yvalue option)" where
  "end_container st =
     (case vec_pop (object_stack st) of
        None \<Rightarrow> Inl (Panic ''imbalanced parse events'')
      | Some ((label, v, aid), stk) \<Rightarrow>
          (let st1 = st\<lparr>object_stack := stk, anchors := (anchors st)(aid \<mapsto> v)\<rparr> in
           case (label, vec_last stk) of
             (Some l, Some (lb, Mapping cl mp m, i)) \<Rightarrow>
               Inr (st1\<lparr>object_stack := butlast stk @ [(lb, Mapping cl (im_insert l v mp) m, i)]\<rparr>,
                    None)
           | (None, Some (lb, Sequence sq m, i)) \<Rightarrow>
               Inr (st1\<lparr>object_stack := butlast stk @ [(lb, Sequence (sq @ [v]) m, i)]\<rparr>, None)
           | _ \<Rightarrow> Inr (st1, Some v)))"

text \<open>\<^verbatim>\<open>MarkedYaml::add_value\<close>: the pending key is taken. With a key and a
  mapping on top, the scalar is stored under the key; with no key and a sequence on
  top, it is appended; in both cases it is recorded in the anchor table. With no key
  otherwise, the scalar becomes the pending key. A key with no mapping on top is
  dropped (a warning in the source).\<close>

definition add_value :: "marked_yaml \<Rightarrow> marker \<Rightarrow> string \<Rightarrow> anchor_id \<Rightarrow> marked_yaml" where
  "add_value st mk v aid =
     (let st1 = st\<lparr>current_label := None\<rparr>; val = String v mk in
      case (current_label st, vec_last (object_stack st)) of
        (Some l, Some (lb, Mapping cl mp m, i)) \<Rightarrow>
          st1\<lparr>anchors := (anchors st)(aid \<mapsto> val),
              object_stack := butlast (object_stack st) @ [(lb, Mapping cl (im_insert l val mp) m, i)]\<rparr>
      | (None, Some (lb, Sequence sq m, i)) \<Rightarrow>
          st1\<lparr>anchors := (anchors st)(aid \<mapsto> val),
              object_stack := butlast (object_stack st) @ [(lb, Sequence (sq @ [val]) m, i)]\<rparr>
      | (None, _) \<Rightarrow> st1\<lparr>current_label := Some \<lparr>name = v, marker = Some mk\<rparr>\<rparr>
      | _ \<Rightarrow> st1)"

text \<open>\<^verbatim>\<open>MarkedYaml::add_alias_value\<close>: the same placement for a resolved
  alias, with no anchor recorded and no key created.\<close>

definition add_alias_value :: "marked_yaml \<Rightarrow> yvalue \<Rightarrow> marked_yaml" where
  "add_alias_value st v =
     (let st1 = st\<lparr>current_label := None\<rparr> in
      case (current_label st, vec_last (object_stack st)) of
        (Some l, Some (lb, Mapping cl mp m, i)) \<Rightarrow>
          st1\<lparr>object_stack := butlast (object_stack st) @ [(lb, Mapping cl (im_insert l v mp) m, i)]\<rparr>
      | (None, Some (lb, Sequence sq m, i)) \<Rightarrow>
          st1\<lparr>object_stack := butlast (object_stack st) @ [(lb, Sequence (sq @ [v]) m, i)]\<rparr>
      | _ \<Rightarrow> st1)"

subsection \<open>The event handler\<close>

text \<open>\<^verbatim>\<open>impl MarkedEventReceiver for MarkedYaml\<close>, \<^verbatim>\<open>on_event\<close>: a start
  event pushes a frame that takes the pending key (a mapping also keeps it as its own
  label); an end event assigns the result of \<^verbatim>\<open>end_container\<close> to the root; an
  alias is resolved through the anchor table, and ignored when the id is unknown.\<close>

fun on_event :: "marked_yaml \<Rightarrow> event \<Rightarrow> marker \<Rightarrow> panic + marked_yaml" where
  "on_event st (Scalar v _ aid _) mk = Inr (add_value st mk v aid)"
| "on_event st (SequenceStart aid) mk =
     Inr (st\<lparr>current_label := None,
             object_stack := object_stack st @ [(current_label st, Sequence [] mk, aid)]\<rparr>)"
| "on_event st SequenceEnd mk =
     (case end_container st of Inl p \<Rightarrow> Inl p | Inr (st', r) \<Rightarrow> Inr (st'\<lparr>root := r\<rparr>))"
| "on_event st (MappingStart aid) mk =
     Inr (st\<lparr>current_label := None,
             object_stack := object_stack st @ [(current_label st, Mapping (current_label st) [] mk, aid)]\<rparr>)"
| "on_event st MappingEnd mk =
     (case end_container st of Inl p \<Rightarrow> Inl p | Inr (st', r) \<Rightarrow> Inr (st'\<lparr>root := r\<rparr>))"
| "on_event st (Alias aid) mk =
     (case anchors st aid of Some v \<Rightarrow> Inr (add_alias_value st v) | None \<Rightarrow> Inr st)"
| "on_event st DocumentStart mk = Inr st"
| "on_event st DocumentEnd mk = Inr st"
| "on_event st Nothing mk = Inr st"
| "on_event st StreamStart mk = Inr st"
| "on_event st StreamEnd mk = Inr st"

subsection \<open>Driving the handler and parsing\<close>

text \<open>\<^verbatim>\<open>Parser::load\<close> hands the receiver each event with its marker, in order;
  a panic in the handler stops the run.\<close>

definition run_events :: "marked_yaml \<Rightarrow> (event \<times> marker) list \<Rightarrow> panic + marked_yaml" where
  "run_events st evs = run_sum (\<lambda>st (e, mk). on_event st e mk) st evs"

text \<open>\<^verbatim>\<open>ConfigurationError::InvalidConfiguration { message, error }\<close>.\<close>

datatype configuration_error = InvalidConfiguration string string

text \<open>The event source: for a source text, the events produced before the scanner
  stops, and the scanner's error text if it stopped on an error.\<close>

type_synonym event_source = "string \<Rightarrow> (event \<times> marker) list \<times> string option"

text \<open>\<^verbatim>\<open>fn parse\<close>: carriage returns are removed, the events are fed to a default
  \<^verbatim>\<open>MarkedYaml\<close>, and a scanner error becomes a configuration error; the loader is
  then dropped.\<close>

definition parse :: "event_source \<Rightarrow> string \<Rightarrow> panic + (configuration_error + marked_yaml)" where
  "parse scan source =
     (let src = filter (\<lambda>c. c \<noteq> CHR 0x0D) source; (evs, err) = scan src in
      case run_events marked_yaml_default evs of
        Inl p \<Rightarrow> Inl p
      | Inr loader \<Rightarrow>
          Inr (case err of
                 None \<Rightarrow> Inr loader
               | Some e \<Rightarrow> Inl (InvalidConfiguration ''could not parse yaml'' e)))"

subsection \<open>Balanced event streams\<close>

fun opens :: "event \<Rightarrow> bool" where
  "opens (SequenceStart _) = True"
| "opens (MappingStart _) = True"
| "opens _ = False"

fun closes :: "event \<Rightarrow> bool" where
  "closes SequenceEnd = True"
| "closes MappingEnd = True"
| "closes _ = False"

text \<open>A stream never closes more containers than are open, starting from depth
  \<open>d\<close>.\<close>

fun ends_matched :: "nat \<Rightarrow> (event \<times> marker) list \<Rightarrow> bool" where
  "ends_matched d [] = True"
| "ends_matched d ((e, mk) # es) =
     (if opens e then ends_matched (Suc d) es
      else if closes e then 0 < d \<and> ends_matched (d - 1) es
      else ends_matched d es)"

subsection \<open>The mutators, branch by branch\<close>

text \<open>The shape of the innermost open container.\<close>

definition top_is_mapping :: "frame list \<Rightarrow> bool" where
  "top_is_mapping stk = (case vec_last stk of Some (_, Mapping _ _ _, _) \<Rightarrow> True | _ \<Rightarrow> False)"

definition top_is_sequence :: "frame list \<Rightarrow> bool" where
  "top_is_sequence stk = (case vec_last stk of Some (_, Sequence _ _, _) \<Rightarrow> True | _ \<Rightarrow> False)"

lemma stack_cases:
  obtains "xs = []" | fs lb v i where "xs = fs @ [(lb, v, i)]"
  by (metis prod_cases3 rev_exhaust)

lemma add_value_into_mapping:
  "current_label st = Some l \<Longrightarrow> object_stack st = fs @ [(lb, Mapping cl mp m, i)] \<Longrightarrow>
   add_value st mk v aid =
     st\<lparr>current_label := None, anchors := (anchors st)(aid \<mapsto> String v mk),
        object_stack := fs @ [(lb, Mapping cl (im_insert l (String v mk) mp) m, i)]\<rparr>"
  by (simp add: add_value_def Let_def)

lemma add_value_into_sequence:
  "current_label st = None \<Longrightarrow> object_stack st = fs @ [(lb, Sequence sq m, i)] \<Longrightarrow>
   add_value st mk v aid =
     st\<lparr>current_label := None, anchors := (anchors st)(aid \<mapsto> String v mk),
        object_stack := fs @ [(lb, Sequence (sq @ [String v mk]) m, i)]\<rparr>"
  by (simp add: add_value_def Let_def)

lemma add_value_as_key:
  "current_label st = None \<Longrightarrow> \<not> top_is_sequence (object_stack st) \<Longrightarrow>
   add_value st mk v aid = st\<lparr>current_label := Some \<lparr>name = v, marker = Some mk\<rparr>\<rparr>"
  by (auto simp: add_value_def top_is_sequence_def split: option.splits yvalue.splits)

lemma add_value_drops_key:
  "current_label st = Some l \<Longrightarrow> \<not> top_is_mapping (object_stack st) \<Longrightarrow>
   add_value st mk v aid = st\<lparr>current_label := None\<rparr>"
  by (auto simp: add_value_def top_is_mapping_def split: option.splits yvalue.splits)

lemma add_alias_value_into_mapping:
  "current_label st = Some l \<Longrightarrow> object_stack st = fs @ [(lb, Mapping cl mp m, i)] \<Longrightarrow>
   add_alias_value st v =
     st\<lparr>current_label := None, object_stack := fs @ [(lb, Mapping cl (im_insert l v mp) m, i)]\<rparr>"
  by (simp add: add_alias_value_def)

lemma add_alias_value_into_sequence:
  "current_label st = None \<Longrightarrow> object_stack st = fs @ [(lb, Sequence sq m, i)] \<Longrightarrow>
   add_alias_value st v =
     st\<lparr>current_label := None, object_stack := fs @ [(lb, Sequence (sq @ [v]) m, i)]\<rparr>"
  by (simp add: add_alias_value_def)

lemma add_alias_value_dropped:
  "\<not> (current_label st \<noteq> None \<and> top_is_mapping (object_stack st)) \<Longrightarrow>
   \<not> (current_label st = None \<and> top_is_sequence (object_stack st)) \<Longrightarrow>
   add_alias_value st v = st\<lparr>current_label := None\<rparr>"
  by (auto simp: add_alias_value_def top_is_mapping_def top_is_sequence_def Let_def
           split: option.splits yvalue.splits)

lemma end_container_empty:
  "object_stack st = [] \<Longrightarrow> end_container st = Inl (Panic ''imbalanced parse events'')"
  by (simp add: end_container_def)

lemma end_container_into_mapping:
  "object_stack st = fs @ [(lb, Mapping cl mp m, i), (Some l, v, aid)] \<Longrightarrow>
   end_container st =
     Inr (st\<lparr>object_stack := fs @ [(lb, Mapping cl (im_insert l v mp) m, i)],
             anchors := (anchors st)(aid \<mapsto> v)\<rparr>, None)"
  using vec_pop_snoc [of "fs @ [(lb, Mapping cl mp m, i)]" "(Some l, v, aid)"]
  by (simp add: end_container_def)

lemma end_container_into_sequence:
  "object_stack st = fs @ [(lb, Sequence sq m, i), (None, v, aid)] \<Longrightarrow>
   end_container st =
     Inr (st\<lparr>object_stack := fs @ [(lb, Sequence (sq @ [v]) m, i)],
             anchors := (anchors st)(aid \<mapsto> v)\<rparr>, None)"
  using vec_pop_snoc [of "fs @ [(lb, Sequence sq m, i)]" "(None, v, aid)"]
  by (simp add: end_container_def)

lemma end_container_returns:
  "object_stack st = stk @ [(label, v, aid)] \<Longrightarrow>
   \<not> (label \<noteq> None \<and> top_is_mapping stk) \<Longrightarrow> \<not> (label = None \<and> top_is_sequence stk) \<Longrightarrow>
   end_container st = Inr (st\<lparr>object_stack := stk, anchors := (anchors st)(aid \<mapsto> v)\<rparr>, Some v)"
  by (auto simp: end_container_def top_is_mapping_def top_is_sequence_def Let_def
           split: option.splits yvalue.splits)

subsection \<open>The placement rule\<close>

text \<open>Where a finished child goes in its parent: the placement rule shared by
  \<^verbatim>\<open>end_container\<close>, \<^verbatim>\<open>add_value\<close> and \<^verbatim>\<open>add_alias_value\<close>.\<close>

fun insert_child :: "label option \<Rightarrow> yvalue \<Rightarrow> yvalue \<Rightarrow> yvalue option" where
  "insert_child (Some k) v (Mapping cl mp m) = Some (Mapping cl (im_insert k v mp) m)"
| "insert_child None v (Sequence sq m) = Some (Sequence (sq @ [v]) m)"
| "insert_child _ _ _ = None"

lemma add_alias_value_insert_child:
  "object_stack st = fs @ [(lb, c, i)] \<Longrightarrow> insert_child (current_label st) v c = Some c' \<Longrightarrow>
   add_alias_value st v = st\<lparr>current_label := None, object_stack := fs @ [(lb, c', i)]\<rparr>"
  by (cases "(current_label st, v, c)" rule: insert_child.cases)
    (auto simp: add_alias_value_into_mapping add_alias_value_into_sequence)

lemma end_container_insert_child:
  "object_stack st = fs @ [(l, c, i), (lab, v, aid)] \<Longrightarrow> insert_child lab v c = Some c' \<Longrightarrow>
   \<exists>st'. end_container st = Inr (st', None) \<and> object_stack st' = fs @ [(l, c', i)] \<and>
     current_label st' = current_label st"
  by (cases "(lab, v, c)" rule: insert_child.cases)
    (auto simp: end_container_into_mapping end_container_into_sequence)


subsection \<open>The type invariant of the builder\<close>

fun is_container :: "yvalue \<Rightarrow> bool" where
  "is_container (String _ _) = False"
| "is_container _ = True"

definition wf_frame :: "frame \<Rightarrow> bool" where
  "wf_frame f = (case f of (_, v, _) \<Rightarrow> is_container v \<and> wf_value v)"

text \<open>Every open frame holds a well-formed container, every anchored value is well
  formed, and the root, once set, is a well-formed container.\<close>

definition wf_state :: "marked_yaml \<Rightarrow> bool" where
  "wf_state st \<longleftrightarrow>
     list_all wf_frame (object_stack st) \<and> (\<forall>v\<in>ran (anchors st). wf_value v) \<and>
     pred_option (\<lambda>v. is_container v \<and> wf_value v) (root st)"

text \<open>The states a builder passes through from \<^verbatim>\<open>MarkedYaml::default()\<close>.\<close>

inductive reachable :: "marked_yaml \<Rightarrow> bool" where
  start: "reachable marked_yaml_default"
| step: "reachable st \<Longrightarrow> on_event st e mk = Inr st' \<Longrightarrow> reachable st'"

lemma wf_frame_simp [simp]: "wf_frame (l, v, i) \<longleftrightarrow> is_container v \<and> wf_value v"
  by (simp add: wf_frame_def)

lemma top_is_sequence_obtain:
  "top_is_sequence stk \<Longrightarrow> \<exists>fs lb sq m i. stk = fs @ [(lb, Sequence sq m, i)]"
  by (cases stk rule: stack_cases) (auto simp: top_is_sequence_def split: yvalue.splits)

lemma top_is_mapping_obtain:
  "top_is_mapping stk \<Longrightarrow> \<exists>fs lb cl mp m i. stk = fs @ [(lb, Mapping cl mp m, i)]"
  by (cases stk rule: stack_cases) (auto simp: top_is_mapping_def split: yvalue.splits)

lemma wf_state_label [simp]: "wf_state (st\<lparr>current_label := x\<rparr>) = wf_state st"
  by (simp add: wf_state_def)

lemma wf_state_stack:
  "wf_state st \<Longrightarrow> list_all wf_frame stk \<Longrightarrow> wf_state (st\<lparr>object_stack := stk\<rparr>)"
  by (simp add: wf_state_def)

lemma wf_state_anchor_stack:
  assumes "wf_state st" "list_all wf_frame stk" "wf_value x"
  shows "wf_state (st\<lparr>current_label := c, anchors := (anchors st)(aid \<mapsto> x), object_stack := stk\<rparr>)"
proof -
  have "\<forall>v\<in>ran ((anchors st)(aid \<mapsto> x)). wf_value v"
    using assms by (intro ran_fun_upd_pred) (simp_all add: wf_state_def)
  with assms show ?thesis by (simp add: wf_state_def)
qed

lemma wf_state_frames: "wf_state st \<Longrightarrow> list_all wf_frame (object_stack st)"
  by (simp add: wf_state_def)

lemma wf_state_add_value: "wf_state st \<Longrightarrow> wf_state (add_value st mk v aid)"
proof (cases "current_label st")
  case None
  show "wf_state st \<Longrightarrow> ?thesis"
  proof (cases "top_is_sequence (object_stack st)")
    case True
    then obtain fs lb sq m i where stk: "object_stack st = fs @ [(lb, Sequence sq m, i)]"
      by (blast dest: top_is_sequence_obtain)
    assume wf: "wf_state st"
    from wf stk have "list_all wf_frame (fs @ [(lb, Sequence (sq @ [String v mk]) m, i)])"
      by (simp add: wf_state_def)
    with wf None stk show ?thesis
      by (simp add: add_value_into_sequence wf_state_anchor_stack)
  next
    case False
    with None show "wf_state st \<Longrightarrow> ?thesis" by (simp add: add_value_as_key)
  qed
next
  case (Some l)
  show "wf_state st \<Longrightarrow> ?thesis"
  proof (cases "top_is_mapping (object_stack st)")
    case True
    then obtain fs lb cl mp m i where stk: "object_stack st = fs @ [(lb, Mapping cl mp m, i)]"
      by (blast dest: top_is_mapping_obtain)
    assume wf: "wf_state st"
    from wf stk have "list_all wf_frame (fs @ [(lb, Mapping cl (im_insert l (String v mk) mp) m, i)])"
      by (simp add: wf_state_def distinct_im_insert list_all_wf_im_insert)
    with wf Some stk show ?thesis
      by (simp add: add_value_into_mapping wf_state_anchor_stack)
  next
    case False
    with Some show "wf_state st \<Longrightarrow> ?thesis" by (simp add: add_value_drops_key)
  qed
qed


lemma wf_state_stack_anchor:
  assumes "wf_state st" "list_all wf_frame stk" "wf_value x"
  shows "wf_state (st\<lparr>object_stack := stk, anchors := (anchors st)(aid \<mapsto> x)\<rparr>)"
proof -
  have "\<forall>v\<in>ran ((anchors st)(aid \<mapsto> x)). wf_value v"
    using assms by (intro ran_fun_upd_pred) (simp_all add: wf_state_def)
  with assms show ?thesis by (simp add: wf_state_def)
qed

lemma wf_state_root:
  "wf_state st \<Longrightarrow> pred_option (\<lambda>v. is_container v \<and> wf_value v) r \<Longrightarrow> wf_state (st\<lparr>root := r\<rparr>)"
  by (simp add: wf_state_def)

lemma wf_state_add_alias_value:
  assumes wf: "wf_state st" and v: "wf_value v"
  shows "wf_state (add_alias_value st v)"
proof (cases "current_label st \<noteq> None \<and> top_is_mapping (object_stack st)")
  case True
  then obtain l fs lb cl mp m i where l: "current_label st = Some l"
    and stk: "object_stack st = fs @ [(lb, Mapping cl mp m, i)]"
    by (blast dest: top_is_mapping_obtain)
  from wf stk v have "list_all wf_frame (fs @ [(lb, Mapping cl (im_insert l v mp) m, i)])"
    by (simp add: wf_state_def distinct_im_insert list_all_wf_im_insert)
  with wf l stk show ?thesis by (simp add: add_alias_value_into_mapping wf_state_stack)
next
  case notmap: False
  show ?thesis
  proof (cases "current_label st = None \<and> top_is_sequence (object_stack st)")
    case True
    then obtain fs lb sq m i where l: "current_label st = None"
      and stk: "object_stack st = fs @ [(lb, Sequence sq m, i)]"
      by (blast dest: top_is_sequence_obtain)
    from wf stk v have "list_all wf_frame (fs @ [(lb, Sequence (sq @ [v]) m, i)])"
      by (simp add: wf_state_def)
    with wf l stk show ?thesis by (simp add: add_alias_value_into_sequence wf_state_stack)
  next
    case False
    with notmap wf show ?thesis by (simp add: add_alias_value_dropped)
  qed
qed

lemma wf_state_end_container:
  assumes wf: "wf_state st" and ec: "end_container st = Inr (st', r)"
  shows "wf_state st' \<and> pred_option (\<lambda>v. is_container v \<and> wf_value v) r"
proof (cases "object_stack st" rule: stack_cases)
  case 1
  with ec show ?thesis by (simp add: end_container_def)
next
  case (2 stk label v aid)
  with wf have v: "is_container v \<and> wf_value v" and fr: "list_all wf_frame stk"
    by (simp_all add: wf_state_def)
  show ?thesis
  proof (cases "label \<noteq> None \<and> top_is_mapping stk")
    case True
    then obtain l fs lb cl mp m i where l: "label = Some l"
      and stk: "stk = fs @ [(lb, Mapping cl mp m, i)]"
      by (blast dest: top_is_mapping_obtain)
    from fr stk v have "list_all wf_frame (fs @ [(lb, Mapping cl (im_insert l v mp) m, i)])"
      by (simp add: distinct_im_insert list_all_wf_im_insert)
    with 2 ec wf v l stk show ?thesis
      by (auto simp: end_container_into_mapping intro!: wf_state_stack_anchor)
  next
    case notmap: False
    show ?thesis
    proof (cases "label = None \<and> top_is_sequence stk")
      case True
      then obtain fs lb sq m i where l: "label = None"
        and stk: "stk = fs @ [(lb, Sequence sq m, i)]"
        by (blast dest: top_is_sequence_obtain)
      from fr stk v have "list_all wf_frame (fs @ [(lb, Sequence (sq @ [v]) m, i)])"
        by simp
      with 2 ec wf v l stk show ?thesis
        by (auto simp: end_container_into_sequence intro!: wf_state_stack_anchor)
    next
      case False
      with notmap 2 ec wf v fr show ?thesis
        by (auto simp: end_container_returns intro!: wf_state_stack_anchor)
    qed
  qed
qed

lemma wf_state_on_event:
  assumes wf: "wf_state st" and ev: "on_event st e mk = Inr st'"
  shows "wf_state st'"
proof (cases e)
  case (Alias aid)
  show ?thesis
  proof (cases "anchors st aid")
    case (Some v)
    with wf have "wf_value v" by (auto simp: wf_state_def intro: ranI)
    with wf ev Alias Some show ?thesis by (auto simp: wf_state_add_alias_value)
  qed (use wf ev Alias in simp)
next
  case SequenceEnd
  with ev obtain st1 r where "end_container st = Inr (st1, r)" "st' = st1\<lparr>root := r\<rparr>"
    by (auto split: sum.splits)
  with wf show ?thesis by (simp add: wf_state_end_container wf_state_root)
next
  case MappingEnd
  with ev obtain st1 r where "end_container st = Inr (st1, r)" "st' = st1\<lparr>root := r\<rparr>"
    by (auto split: sum.splits)
  with wf show ?thesis by (simp add: wf_state_end_container wf_state_root)
qed (use wf ev in \<open>auto simp: wf_state_add_value wf_state_stack wf_state_frames\<close>)

lemma reachable_wf: "reachable st \<Longrightarrow> wf_state st"
proof (induction rule: reachable.induct)
  case start
  show ?case by (simp add: wf_state_def marked_yaml_default_def)
next
  case (step st e mk st')
  then show ?case by (blast intro: wf_state_on_event)
qed

lemma reachable_run_events:
  "reachable st \<Longrightarrow> run_events st evs = Inr st' \<Longrightarrow> reachable st'"
  unfolding run_events_def
  by (rule run_sum_invariant [where P = reachable]) (auto intro: reachable.step)

subsection \<open>Stack depth and the imbalance panic\<close>

lemma add_value_stack_length:
  "length (object_stack (add_value st mk v aid)) = length (object_stack st)"
  by (cases "object_stack st" rule: stack_cases)
    (auto simp: add_value_def Let_def split: option.splits yvalue.splits)

lemma add_alias_value_stack_length:
  "length (object_stack (add_alias_value st v)) = length (object_stack st)"
  by (cases "object_stack st" rule: stack_cases)
    (auto simp: add_alias_value_def Let_def split: option.splits yvalue.splits)

lemma end_container_Inl:
  "end_container st = Inl p \<longleftrightarrow> object_stack st = [] \<and> p = Panic ''imbalanced parse events''"
proof (cases "object_stack st" rule: stack_cases)
  case 1
  then show ?thesis by (auto simp: end_container_def)
next
  case (2 fs lb v i)
  then show ?thesis
    by (cases fs rule: stack_cases)
      (auto simp: end_container_def Let_def split: option.splits yvalue.splits)
qed

lemma end_container_Inr:
  "end_container st = Inr (st', r) \<Longrightarrow>
   object_stack st \<noteq> [] \<and> length (object_stack st') = length (object_stack st) - 1"
proof (cases "object_stack st" rule: stack_cases)
  case 1
  then show "end_container st = Inr (st', r) \<Longrightarrow> ?thesis" by (simp add: end_container_def)
next
  case (2 fs lb v i)
  then show "end_container st = Inr (st', r) \<Longrightarrow> ?thesis"
    by (cases fs rule: stack_cases)
      (auto simp: end_container_def Let_def split: option.splits yvalue.splits)
qed

lemma on_event_Inl:
  "on_event st e mk = Inl p \<Longrightarrow>
   closes e \<and> object_stack st = [] \<and> p = Panic ''imbalanced parse events''"
  by (cases e) (auto simp: end_container_Inl split: sum.splits option.splits)

lemma on_event_Inr_length:
  "on_event st e mk = Inr st' \<Longrightarrow>
   length (object_stack st') =
     (if opens e then Suc (length (object_stack st))
      else if closes e then length (object_stack st) - 1
      else length (object_stack st))"
  by (cases e)
    (auto simp: add_value_stack_length add_alias_value_stack_length
          dest: end_container_Inr split: sum.splits option.splits)

lemma on_event_Inr_exists:
  "\<not> (closes e \<and> object_stack st = []) \<Longrightarrow> \<exists>st'. on_event st e mk = Inr st'"
  by (cases "on_event st e mk") (auto dest: on_event_Inl)

lemma run_events_Cons:
  "run_events st ((e, mk) # evs) =
     (case on_event st e mk of Inl p \<Rightarrow> Inl p | Inr st' \<Rightarrow> run_events st' evs)"
  by (simp add: run_events_def split: sum.split)

lemma run_events_append:
  "run_events st (xs @ ys) = (case run_events st xs of Inl p \<Rightarrow> Inl p | Inr st' \<Rightarrow> run_events st' ys)"
  by (simp add: run_events_def run_sum_append split: sum.split)

lemma run_events_Inl:
  "run_events st evs = Inl p \<Longrightarrow> p = Panic ''imbalanced parse events''"
proof (induction evs arbitrary: st)
  case Nil
  then show ?case by (simp add: run_events_def)
next
  case (Cons x evs)
  obtain e mk where x: "x = (e, mk)" by fastforce
  show ?case
  proof (cases "on_event st e mk")
    case (Inl q)
    with Cons.prems x show ?thesis by (auto simp: run_events_Cons dest!: on_event_Inl)
  next
    case (Inr st')
    with Cons.prems x have "run_events st' evs = Inl p" by (simp add: run_events_Cons)
    then show ?thesis by (rule Cons.IH)
  qed
qed

text \<open>
  C2. Feeding a stream of events to a builder panics ("imbalanced parse events") exactly
  when some end event arrives with no open container: the run succeeds if and only if,
  counting from the builder's current stack depth, no prefix of the stream closes more
  containers than it opens.
\<close>

lemma run_events_Inr_if_matched:
  "ends_matched (length (object_stack st)) evs \<Longrightarrow> \<exists>st'. run_events st evs = Inr st'"
proof (induction evs arbitrary: st)
  case Nil
  then show ?case by (simp add: run_events_def)
next
  case (Cons x evs)
  obtain e mk where x: "x = (e, mk)" by fastforce
  show ?case
  proof (cases "on_event st e mk")
    case (Inl p)
    then have "closes e \<and> object_stack st = []" by (blast dest: on_event_Inl)
    with Cons.prems x show ?thesis by (cases e) auto
  next
    case (Inr st')
    from Inr have "length (object_stack st') =
       (if opens e then Suc (length (object_stack st))
        else if closes e then length (object_stack st) - 1 else length (object_stack st))"
      by (rule on_event_Inr_length)
    with Cons.prems x have "ends_matched (length (object_stack st')) evs"
      by (cases e) auto
    with Inr x Cons.IH [of st'] show ?thesis by (simp add: run_events_Cons)
  qed
qed

lemma run_events_matched_if_Inr:
  "run_events st evs = Inr st' \<Longrightarrow> ends_matched (length (object_stack st)) evs"
proof (induction evs arbitrary: st)
  case Nil
  then show ?case by simp
next
  case (Cons x evs)
  obtain e mk where x: "x = (e, mk)" by fastforce
  from Cons.prems x obtain st1 where step: "on_event st e mk = Inr st1"
    and rest: "run_events st1 evs = Inr st'"
    by (auto simp: run_events_Cons split: sum.splits)
  from step have len: "length (object_stack st1) =
       (if opens e then Suc (length (object_stack st))
        else if closes e then length (object_stack st) - 1 else length (object_stack st))"
    by (rule on_event_Inr_length)
  have "closes e \<Longrightarrow> object_stack st \<noteq> []"
    using step by (cases e) (auto dest: end_container_Inr split: sum.splits)
  with x len Cons.IH [OF rest] show ?case by (cases e) auto
qed

theorem run_events_no_panic_iff:
  "(\<exists>st'. run_events st evs = Inr st') \<longleftrightarrow> ends_matched (length (object_stack st)) evs"
  by (blast intro: run_events_Inr_if_matched dest: run_events_matched_if_Inr)

text \<open>
  C3. Every builder that \<^verbatim>\<open>parse\<close> returns satisfies the type invariant: each open
  frame holds a sequence or a mapping, no mapping (in the tree, in an open frame or in
  the anchor table) has two keys of the same name, and the root, when set, is a
  sequence or a mapping.
\<close>

theorem parse_loader_wf:
  assumes "parse scan src = Inr (Inr loader)"
  shows "wf_state loader"
proof -
  obtain evs err where scan: "scan (filter (\<lambda>c. c \<noteq> CHR 0x0D) src) = (evs, err)"
    by fastforce
  with assms have "run_events marked_yaml_default evs = Inr loader"
    by (auto simp: parse_def split: sum.splits option.splits)
  with reachable.start have "reachable loader" by (rule reachable_run_events)
  then show ?thesis by (rule reachable_wf)
qed

subsection \<open>Anchors and aliases\<close>

lemma end_container_anchor:
  assumes "object_stack st = stk @ [(l, v, aid)]"
  shows "\<exists>st' r. end_container st = Inr (st', r) \<and> anchors st' aid = Some v"
proof (cases "l \<noteq> None \<and> top_is_mapping stk")
  case True
  then obtain k fs lb cl mp m i where "l = Some k" "stk = fs @ [(lb, Mapping cl mp m, i)]"
    by (blast dest: top_is_mapping_obtain)
  with assms show ?thesis by (simp add: end_container_into_mapping)
next
  case notmap: False
  show ?thesis
  proof (cases "l = None \<and> top_is_sequence stk")
    case True
    then obtain fs lb sq m i where "l = None" "stk = fs @ [(lb, Sequence sq m, i)]"
      by (blast dest: top_is_sequence_obtain)
    with assms show ?thesis by (simp add: end_container_into_sequence)
  next
    case False
    with notmap assms show ?thesis by (simp add: end_container_returns)
  qed
qed

text \<open>
  C8. An alias resolves to a copy of the anchored value: when the anchor table has the
  alias's id, the alias event places exactly that value (with the anchor's positions,
  not the alias's) where the placement rule puts a finished child, and clears the
  pending key.
\<close>

theorem alias_inserts_anchored_value:
  assumes "anchors st aid = Some a" and "object_stack st = fs @ [(lb, c, i)]"
    and "insert_child (current_label st) a c = Some c'"
  shows "on_event st (Alias aid) mk =
           Inr (st\<lparr>current_label := None, object_stack := fs @ [(lb, c', i)]\<rparr>)"
  using assms by (simp add: add_alias_value_insert_child)

text \<open>
  C9. Closing a container records its finished value in the anchor table under the
  container's anchor id, whatever happens to the value next.
\<close>

theorem close_records_anchor:
  assumes "object_stack st = stk @ [(l, v, aid)]" and "closes e"
  shows "\<exists>st'. on_event st e mk = Inr st' \<and> anchors st' aid = Some v"
proof -
  from end_container_anchor [OF assms(1)] obtain st1 r
    where "end_container st = Inr (st1, r)" "anchors st1 aid = Some v" by blast
  with assms(2) show ?thesis by (cases e) auto
qed

text \<open>
  C10. An alias whose id is not in the anchor table (the alias of an enclosing container,
  or of a mapping key, neither of which is recorded yet) changes nothing, and in
  particular leaves the pending key in place. In a mapping, the next scalar, which the
  source means as the next key, is then stored as the value of that pending key.
\<close>

theorem unresolved_alias_shifts_next_scalar:
  assumes "anchors st aid = None" and "current_label st = Some k"
    and "object_stack st = fs @ [(lb, Mapping cl mp m, i)]"
  shows "run_events st [(Alias aid, mk), (Scalar s sty aid' tag, mk')] =
           Inr (st\<lparr>current_label := None, anchors := (anchors st)(aid' \<mapsto> String s mk'),
                   object_stack := fs @ [(lb, Mapping cl (im_insert k (String s mk') mp) m, i)]\<rparr>)"
  using assms by (simp add: run_events_def add_value_into_mapping)

subsection \<open>Parsing\<close>

text \<open>
  C12. A scanner error is reported as one configuration error with the message
  "could not parse yaml" and the scanner's text, and no loader, provided the events
  before the error did not make the builder panic.
\<close>

theorem parse_scan_error:
  assumes "scan (filter (\<lambda>c. c \<noteq> CHR 0x0D) src) = (evs, Some e)" and "ends_matched 0 evs"
  shows "parse scan src = Inr (Inl (InvalidConfiguration ''could not parse yaml'' e))"
proof -
  from assms(2) obtain st where "run_events marked_yaml_default evs = Inr st"
    using run_events_Inr_if_matched [of marked_yaml_default evs]
    by (auto simp: marked_yaml_default_def)
  with assms(1) show ?thesis by (simp add: parse_def)
qed

text \<open>
  C13. Carriage returns are invisible: two sources that differ only in carriage
  returns (a CRLF file and its LF form) parse to the same result.
\<close>

theorem parse_ignores_carriage_returns:
  assumes "filter (\<lambda>c. c \<noteq> CHR 0x0D) s = filter (\<lambda>c. c \<noteq> CHR 0x0D) s'"
  shows "parse scan s = parse scan s'"
  using assms by (simp add: parse_def)

end
