(* ===== verification/Yaml_Pointer.thy ===== *)
theory Yaml_Pointer
  imports Yaml_Builder
begin

text \<open>
  The pointer navigator \<^verbatim>\<open>MarkedYaml::get_element\<close> of
  \<^verbatim>\<open>src/apollo-router/src/configuration/yaml.rs\<close>: a JSON pointer produced by the
  schema validator (\<^verbatim>\<open>jsonschema::paths::PathChunk\<close> steps) is followed from the
  root, a property step into a mapping by key name, an index step into a sequence by
  a bounds-checked read; any other combination, and any miss, gives \<open>None\<close> for the
  rest of the walk. The lemmas relate the loop to a recursive reference walk over the
  value, say what one step into a mapping or a sequence returns, and show that a step
  of the wrong kind ends the walk with \<open>None\<close>.
\<close>

subsection \<open>Pointers and the walk\<close>

text \<open>\<^verbatim>\<open>jsonschema::paths::PathChunk\<close>.\<close>

datatype path_chunk = Property string | Index nat | Keyword string

type_synonym json_pointer = "path_chunk list"

text \<open>One iteration of the \<^verbatim>\<open>for item in pointer.iter()\<close> loop.\<close>

definition get_step :: "yvalue option \<Rightarrow> path_chunk \<Rightarrow> yvalue option" where
  "get_step current item =
     (case (current, item) of
        (Some (Mapping _ mapping _), Property value) \<Rightarrow> im_get (label_from value) mapping
      | (Some (Sequence sequence _), Index idx) \<Rightarrow> vec_get sequence idx
      | _ \<Rightarrow> None)"

text \<open>\<^verbatim>\<open>MarkedYaml::get_element\<close>, starting from \<^verbatim>\<open>self.root()\<close>.\<close>

definition get_element :: "marked_yaml \<Rightarrow> json_pointer \<Rightarrow> yvalue option" where
  "get_element st pointer = foldl get_step (root st) pointer"

text \<open>Whether a step has the kind of the node it is applied to.\<close>

fun chunk_fits :: "yvalue \<Rightarrow> path_chunk \<Rightarrow> bool" where
  "chunk_fits (Mapping _ _ _) (Property _) = True"
| "chunk_fits (Sequence _ _) (Index _) = True"
| "chunk_fits _ _ = False"

subsection \<open>A recursive reference walk\<close>

text \<open>The walk as a recursion on the pointer, with the mapping read as an association
  list from key names to values (\<open>map_of\<close>).\<close>

fun subtree :: "yvalue \<Rightarrow> json_pointer \<Rightarrow> yvalue option" where
  "subtree v [] = Some v"
| "subtree (Mapping _ es _) (Property p # ps) =
     (case map_of (map (\<lambda>(k, w). (name k, w)) es) p of None \<Rightarrow> None | Some w \<Rightarrow> subtree w ps)"
| "subtree (Sequence vs _) (Index i # ps) =
     (if i < length vs then subtree (vs ! i) ps else None)"
| "subtree _ _ = None"

subsection \<open>Lemmas\<close>

lemma get_step_None [simp]: "get_step None c = None"
  by (simp add: get_step_def)

lemma foldl_get_step_None [simp]: "foldl get_step None ps = None"
  by (induction ps) auto

lemma get_step_Property_Mapping:
  "get_step (Some (Mapping sl es m)) (Property p) = im_get (label_from p) es"
  by (simp add: get_step_def)

lemma get_step_Index_Sequence:
  "get_step (Some (Sequence vs m)) (Index i) = vec_get vs i"
  by (simp add: get_step_def)

lemma get_step_mismatch: "\<not> chunk_fits v c \<Longrightarrow> get_step (Some v) c = None"
  by (cases v; cases c) (auto simp: get_step_def)

lemma get_element_append:
  "get_element st (ps @ qs) = foldl get_step (get_element st ps) qs"
  by (simp add: get_element_def)

lemma im_get_map_of:
  "im_get (label_from p) es = map_of (map (\<lambda>(k, w). (name k, w)) es) p"
  by (induction es) (auto simp: label_eq_def label_from_def)

lemma foldl_get_step_subtree:
  "foldl get_step (Some v) ps = subtree v ps"
proof (induction v ps rule: subtree.induct)
  case (2 sl es m p ps)
  then show ?case
    by (simp add: get_step_Property_Mapping im_get_map_of split: option.splits)
next
  case (3 vs m i ps)
  then show ?case by (simp add: get_step_Index_Sequence vec_get_def)
qed (simp_all add: get_step_mismatch)

lemma get_step_mapping_member:
  "distinct (im_names es) \<Longrightarrow> (k, w) \<in> set es \<Longrightarrow>
   get_step (Some (Mapping sl es m)) (Property (name k)) = Some w"
  by (simp add: get_step_Property_Mapping im_get_distinct_member)

lemma get_step_sequence_nth:
  "i < length vs \<Longrightarrow> get_step (Some (Sequence vs m)) (Index i) = Some (vs ! i)"
  by (simp add: get_step_Index_Sequence vec_get_def)

subsection \<open>Properties of the navigator\<close>

text \<open>
  C5. A step whose kind does not match the node it reaches (a property step on a
  sequence or a scalar, an index step on a mapping or a scalar, any keyword step) makes
  \<^verbatim>\<open>get_element\<close> return \<open>None\<close>, whatever steps follow.
\<close>

theorem get_element_kind_mismatch:
  assumes "get_element st ps = Some v" and "\<not> chunk_fits v c"
  shows "get_element st (ps @ c # qs) = None"
  using assms by (simp add: get_element_append get_step_mismatch)

text \<open>
  C6. The loop of \<^verbatim>\<open>get_element\<close> computes the recursive reference walk from the
  root: mappings read as association lists from key names to values, sequences by
  bounds-checked index.
\<close>

theorem get_element_refines_subtree:
  "get_element st ps = (case root st of None \<Rightarrow> None | Some v \<Rightarrow> subtree v ps)"
  by (cases "root st") (simp_all add: get_element_def foldl_get_step_subtree)

text \<open>
  C7. Lookup ignores positions: if the pointer reaches a mapping with distinct key
  names, a property step with the name of any of its keys returns that key's value,
  although the label built for the lookup has no marker and the stored key has one.
\<close>

theorem get_element_mapping_entry:
  assumes "get_element st ps = Some (Mapping sl es m)" and "distinct (im_names es)"
    and "(k, w) \<in> set es"
  shows "get_element st (ps @ [Property (name k)]) = Some w"
  using assms by (simp add: get_element_append get_step_mapping_member)

subsection \<open>Witnesses\<close>

definition nav_example :: marked_yaml where
  "nav_example =
     \<lparr>anchors = Map.empty, current_label = None, object_stack = [],
      root = Some (Mapping None
        [(\<lparr>name = ''k'', marker = Some \<lparr>index = 0, line = 1, col = 0\<rparr>\<rparr>,
          Sequence [String ''v'' \<lparr>index = 5, line = 2, col = 4\<rparr>] \<lparr>index = 3, line = 2, col = 2\<rparr>)]
        \<lparr>index = 0, line = 1, col = 0\<rparr>)\<rparr>"

theorem get_element_kind_mismatch_witness:
  "get_element nav_example [Property ''k''] =
     Some (Sequence [String ''v'' \<lparr>index = 5, line = 2, col = 4\<rparr>] \<lparr>index = 3, line = 2, col = 2\<rparr>) \<and>
   \<not> chunk_fits (Sequence [String ''v'' \<lparr>index = 5, line = 2, col = 4\<rparr>] \<lparr>index = 3, line = 2, col = 2\<rparr>)
       (Property ''v'') \<and>
   get_element nav_example ([Property ''k''] @ Property ''v'' # [Index 0]) = None"
proof -
  have h: "get_element nav_example [Property ''k''] =
     Some (Sequence [String ''v'' \<lparr>index = 5, line = 2, col = 4\<rparr>] \<lparr>index = 3, line = 2, col = 2\<rparr>)"
    by (simp add: nav_example_def get_element_def get_step_def label_eq_def label_from_def)
  have c: "\<not> chunk_fits (Sequence [String ''v'' \<lparr>index = 5, line = 2, col = 4\<rparr>] \<lparr>index = 3, line = 2, col = 2\<rparr>)
       (Property ''v'')" by simp
  from get_element_kind_mismatch [OF h c] h c show ?thesis by simp
qed

theorem get_element_mapping_entry_witness:
  "get_element nav_example [] =
     Some (Mapping None
        [(\<lparr>name = ''k'', marker = Some \<lparr>index = 0, line = 1, col = 0\<rparr>\<rparr>,
          Sequence [String ''v'' \<lparr>index = 5, line = 2, col = 4\<rparr>] \<lparr>index = 3, line = 2, col = 2\<rparr>)]
        \<lparr>index = 0, line = 1, col = 0\<rparr>) \<and>
   get_element nav_example ([] @ [Property ''k'']) =
     Some (Sequence [String ''v'' \<lparr>index = 5, line = 2, col = 4\<rparr>] \<lparr>index = 3, line = 2, col = 2\<rparr>)"
proof -
  have h: "get_element nav_example [] =
     Some (Mapping None
        [(\<lparr>name = ''k'', marker = Some \<lparr>index = 0, line = 1, col = 0\<rparr>\<rparr>,
          Sequence [String ''v'' \<lparr>index = 5, line = 2, col = 4\<rparr>] \<lparr>index = 3, line = 2, col = 2\<rparr>)]
        \<lparr>index = 0, line = 1, col = 0\<rparr>)"
    by (simp add: nav_example_def get_element_def)
  from get_element_mapping_entry [OF h, of "\<lparr>name = ''k'', marker = Some \<lparr>index = 0, line = 1, col = 0\<rparr>\<rparr>"]
  show ?thesis using h by simp
qed

end
