(* ===== verification/Yaml_Roundtrip.thy ===== *)
theory Yaml_Roundtrip
  imports Yaml_Builder
begin

text \<open>
  The round trip between the event source and the builder of
  \<^verbatim>\<open>src/apollo-router/src/configuration/yaml.rs\<close>. The \<^verbatim>\<open>yaml_rust\<close> parser is
  external; \<open>emit\<close> writes down, from the specification's description of the event
  source, the events it produces for a document tree: a container is its start event,
  its children's events and its end event, a mapping entry is the key scalar (at the
  key's position) followed by the value's events, and no anchors are used. Feeding
  these events to \<open>on_event\<close> rebuilds the tree with every position. When a mapping
  repeats a key name, the builder keeps the first occurrence's place and key and the
  last occurrence's value (\<open>rebuild\<close>); for a well-formed tree \<open>rebuild\<close> is the
  identity, so \<^verbatim>\<open>parse\<close> returns exactly the tree. A tree the parser can emit has
  a position on every key and, on every mapping, the key it stands under as its own
  label (\<open>emittable\<close>).
\<close>

subsection \<open>The events of a document tree\<close>

definition key_pos :: "label \<Rightarrow> marker \<Rightarrow> marker" where
  "key_pos k m = (case marker k of Some p \<Rightarrow> p | None \<Rightarrow> m)"

fun emit :: "yvalue \<Rightarrow> (event \<times> marker) list" where
  "emit (String s m) = [(Scalar s Plain 0 None, m)]"
| "emit (Sequence vs m) = (SequenceStart 0, m) # concat (map emit vs) @ [(SequenceEnd, m)]"
| "emit (Mapping sl es m) =
     (MappingStart 0, m) #
     concat (map (\<lambda>(k, v). (Scalar (name k) Plain 0 None, key_pos k m) # emit v) es) @
     [(MappingEnd, m)]"

definition emit_document :: "marker \<Rightarrow> yvalue \<Rightarrow> (event \<times> marker) list" where
  "emit_document m0 v =
     [(StreamStart, m0), (DocumentStart, m0)] @ emit v @ [(DocumentEnd, m0), (StreamEnd, m0)]"

text \<open>A stream of several documents, as \<^verbatim>\<open>Parser::load(.., true)\<close> delivers it.\<close>

definition emit_stream :: "marker \<Rightarrow> yvalue list \<Rightarrow> (event \<times> marker) list" where
  "emit_stream m0 vs =
     (StreamStart, m0) # concat (map (\<lambda>v. (DocumentStart, m0) # emit v @ [(DocumentEnd, m0)]) vs) @
     [(StreamEnd, m0)]"

text \<open>Trees the parser can emit, under the key \<open>ctx\<close> of their parent.\<close>

fun emittable :: "label option \<Rightarrow> yvalue \<Rightarrow> bool" where
  "emittable ctx (String _ _) = True"
| "emittable ctx (Sequence vs _) = list_all (emittable None) vs"
| "emittable ctx (Mapping sl es _) =
     (sl = ctx \<and> list_all (\<lambda>(k, v). marker k \<noteq> None \<and> emittable (Some k) v) es)"

text \<open>The tree the builder makes of a tree's events: repeated key names in a
  mapping are merged by \<^verbatim>\<open>IndexMap::insert\<close>.\<close>

fun rebuild :: "yvalue \<Rightarrow> yvalue" where
  "rebuild (String s m) = String s m"
| "rebuild (Sequence vs m) = Sequence (map rebuild vs) m"
| "rebuild (Mapping sl es m) = Mapping sl (fold (\<lambda>(k, v) acc. im_insert k (rebuild v) acc) es []) m"

subsection \<open>Rebuilding, one container at a time\<close>

text \<open>Running \<open>evs\<close> from \<open>st\<close> succeeds with no pending key and the stack
  \<open>stk\<close>.\<close>

definition fills :: "marked_yaml \<Rightarrow> (event \<times> marker) list \<Rightarrow> frame list \<Rightarrow> bool" where
  "fills st evs stk \<longleftrightarrow>
     (\<exists>st'. run_events st evs = Inr st' \<and> current_label st' = None \<and> object_stack st' = stk)"

lemma fills_append:
  "run_events st xs = Inr st1 \<Longrightarrow> fills st1 ys stk \<Longrightarrow> fills st (xs @ ys) stk"
  by (simp add: fills_def run_events_append)

lemma fills_Nil: "current_label st = None \<Longrightarrow> fills st [] (object_stack st)"
  by (simp add: fills_def run_events_def)

lemma emit_seq_body:
  assumes IH: "\<And>v st fs l c i c'. v \<in> set vs \<Longrightarrow> emittable None v \<Longrightarrow>
      current_label st = None \<Longrightarrow> object_stack st = fs @ [(l, c, i)] \<Longrightarrow>
      insert_child None (rebuild v) c = Some c' \<Longrightarrow> fills st (emit v) (fs @ [(l, c', i)])"
    and "list_all (emittable None) vs" "current_label st = None"
    and "object_stack st = fs @ [(l, Sequence acc m, i)]"
  shows "fills st (concat (map emit vs)) (fs @ [(l, Sequence (acc @ map rebuild vs) m, i)])"
  using assms
proof (induction vs arbitrary: st acc)
  case Nil
  then show ?case by (simp add: fills_def run_events_def)
next
  case (Cons v vs)
  have "fills st (emit v) (fs @ [(l, Sequence (acc @ [rebuild v]) m, i)])"
    using Cons.prems(2-) Cons.prems(1) [of v st fs l "Sequence acc m" i] by simp
  then obtain st1 where run1: "run_events st (emit v) = Inr st1" and "current_label st1 = None"
    and "object_stack st1 = fs @ [(l, Sequence (acc @ [rebuild v]) m, i)]"
    by (auto simp: fills_def)
  then have "fills st1 (concat (map emit vs)) (fs @ [(l, Sequence ((acc @ [rebuild v]) @ map rebuild vs) m, i)])"
    using Cons.prems by (intro Cons.IH) auto
  with run1 show ?case by (auto intro: fills_append)
qed

lemma key_label: "marker k \<noteq> None \<Longrightarrow> \<lparr>name = name k, marker = Some (key_pos k m)\<rparr> = k"
  by (cases k) (auto simp: key_pos_def)

lemma emit_map_body:
  assumes IH: "\<And>k v st fs l c i c'. (k, v) \<in> set es \<Longrightarrow> emittable (Some k) v \<Longrightarrow>
      current_label st = Some k \<Longrightarrow> object_stack st = fs @ [(l, c, i)] \<Longrightarrow>
      insert_child (Some k) (rebuild v) c = Some c' \<Longrightarrow> fills st (emit v) (fs @ [(l, c', i)])"
    and "list_all (\<lambda>(k, v). marker k \<noteq> None \<and> emittable (Some k) v) es" "current_label st = None"
    and "object_stack st = fs @ [(l, Mapping cl acc m, i)]"
  shows "fills st (concat (map (\<lambda>(k, v). (Scalar (name k) Plain 0 None, key_pos k m) # emit v) es))
           (fs @ [(l, Mapping cl (fold (\<lambda>(k, v) acc. im_insert k (rebuild v) acc) es acc) m, i)])"
  using assms
proof (induction es arbitrary: st acc)
  case Nil
  then show ?case by (simp add: fills_def run_events_def)
next
  case (Cons e es)
  obtain k v where e: "e = (k, v)" by fastforce
  let ?st1 = "st\<lparr>current_label := Some k\<rparr>"
  have top: "\<not> top_is_sequence (object_stack st)"
    using Cons.prems by (simp add: top_is_sequence_def)
  have run0: "run_events st [(Scalar (name k) Plain 0 None, key_pos k m)] = Inr ?st1"
    using Cons.prems e top by (simp add: run_events_def add_value_as_key key_label)
  have "fills ?st1 (emit v) (fs @ [(l, Mapping cl (im_insert k (rebuild v) acc) m, i)])"
    using Cons.prems(2-) e Cons.prems(1) [of k v ?st1 fs l "Mapping cl acc m" i] by simp
  then obtain st2 where run1: "run_events ?st1 (emit v) = Inr st2" and l2: "current_label st2 = None"
    and s2: "object_stack st2 = fs @ [(l, Mapping cl (im_insert k (rebuild v) acc) m, i)]"
    by (auto simp: fills_def)
  have IH': "\<And>k v st fs l c i c'. (k, v) \<in> set es \<Longrightarrow> emittable (Some k) v \<Longrightarrow>
      current_label st = Some k \<Longrightarrow> object_stack st = fs @ [(l, c, i)] \<Longrightarrow>
      insert_child (Some k) (rebuild v) c = Some c' \<Longrightarrow> fills st (emit v) (fs @ [(l, c', i)])"
    by (rule Cons.prems(1)) simp_all
  have "list_all (\<lambda>(k, v). marker k \<noteq> None \<and> emittable (Some k) v) es"
    using Cons.prems(2) by simp
  from Cons.IH [OF IH' this l2 s2]
  have "fills st2 (concat (map (\<lambda>(k, v). (Scalar (name k) Plain 0 None, key_pos k m) # emit v) es))
      (fs @ [(l, Mapping cl (fold (\<lambda>(k, v) acc. im_insert k (rebuild v) acc) es
                                 (im_insert k (rebuild v) acc)) m, i)])" .
  moreover have "run_events st ((Scalar (name k) Plain 0 None, key_pos k m) # emit v) = Inr st2"
    using run0 run1 run_events_append [of st "[(Scalar (name k) Plain 0 None, key_pos k m)]" "emit v"]
    by simp
  ultimately show ?case
    using e fills_append [of st "(Scalar (name k) Plain 0 None, key_pos k m) # emit v" st2] by simp
qed


lemma fills_three:
  "run_events st xs = Inr st1 \<Longrightarrow> run_events st1 ys = Inr st2 \<Longrightarrow> fills st2 zs stk \<Longrightarrow>
   fills st (xs @ ys @ zs) stk"
  by (simp add: fills_def run_events_append)

lemma emit_fills:
  "emittable lab v \<Longrightarrow> current_label st = lab \<Longrightarrow> object_stack st = fs @ [(l, c, i)] \<Longrightarrow>
   insert_child lab (rebuild v) c = Some c' \<Longrightarrow> fills st (emit v) (fs @ [(l, c', i)])"
proof (induction v arbitrary: lab st fs l c i c')
  case (String s m)
  then show ?case
    by (cases "(lab, String s m, c)" rule: insert_child.cases)
      (auto simp: fills_def run_events_def add_value_into_mapping add_value_into_sequence)
next
  case (Sequence vs m)
  let ?st1 = "st\<lparr>current_label := None, object_stack := fs @ [(l, c, i), (lab, Sequence [] m, 0)]\<rparr>"
  have run0: "run_events st [(SequenceStart 0, m)] = Inr ?st1"
    using Sequence.prems by (simp add: run_events_def)
  have "fills ?st1 (concat (map emit vs)) ((fs @ [(l, c, i)]) @ [(lab, Sequence ([] @ map rebuild vs) m, 0)])"
    by (rule emit_seq_body) (use Sequence in auto)
  then obtain st2 where run1: "run_events ?st1 (concat (map emit vs)) = Inr st2"
    and l2: "current_label st2 = None"
    and s2: "object_stack st2 = fs @ [(l, c, i), (lab, Sequence (map rebuild vs) m, 0)]"
    by (auto simp: fills_def)
  from end_container_insert_child [OF s2] Sequence.prems(4) obtain st3
    where "end_container st2 = Inr (st3, None)" "object_stack st3 = fs @ [(l, c', i)]"
      "current_label st3 = None"
    using l2 by auto
  then have "fills st2 [(SequenceEnd, m)] (fs @ [(l, c', i)])"
    by (simp add: fills_def run_events_def)
  with fills_three [OF run0 run1] show ?case by simp
next
  case (Mapping sl es m)
  then have sl: "sl = lab" by simp
  let ?st1 = "st\<lparr>current_label := None, object_stack := fs @ [(l, c, i), (lab, Mapping lab [] m, 0)]\<rparr>"
  let ?ents = "concat (map (\<lambda>(k, v). (Scalar (name k) Plain 0 None, key_pos k m) # emit v) es)"
  let ?es' = "fold (\<lambda>(k, v) acc. im_insert k (rebuild v) acc) es []"
  have run0: "run_events st [(MappingStart 0, m)] = Inr ?st1"
    using Mapping.prems by (simp add: run_events_def)
  have "fills ?st1 ?ents ((fs @ [(l, c, i)]) @ [(lab, Mapping lab ?es' m, 0)])"
    by (rule emit_map_body) (use Mapping in auto)
  then obtain st2 where run1: "run_events ?st1 ?ents = Inr st2"
    and l2: "current_label st2 = None"
    and s2: "object_stack st2 = fs @ [(l, c, i), (lab, Mapping lab ?es' m, 0)]"
    by (auto simp: fills_def)
  from end_container_insert_child [OF s2] Mapping.prems(4) sl obtain st3
    where "end_container st2 = Inr (st3, None)" "object_stack st3 = fs @ [(l, c', i)]"
      "current_label st3 = None"
    using l2 by auto
  then have "fills st2 [(MappingEnd, m)] (fs @ [(l, c', i)])"
    by (simp add: fills_def run_events_def)
  with fills_three [OF run0 run1] sl show ?case by simp
qed


lemma run_events_doc_frame:
  "run_events st [(StreamStart, m0), (DocumentStart, m0)] = Inr st"
  "run_events st [(DocumentEnd, m0), (StreamEnd, m0)] = Inr st"
  by (simp_all add: run_events_def)

lemma end_container_outermost:
  "object_stack st = [(None, v, aid)] \<Longrightarrow>
   end_container st = Inr (st\<lparr>object_stack := [], anchors := (anchors st)(aid \<mapsto> v)\<rparr>, Some v)"
  using end_container_returns [of st "[]"] by (simp add: top_is_mapping_def top_is_sequence_def)

text \<open>The events of one container, fed to a builder with no pending key and no
  sequence on top of the stack, make that container (rebuilt) the root and leave the
  stack as it was and no key pending: \<^verbatim>\<open>end_container\<close> pushes the finished
  container nowhere, as its frame carries no key and its parent is not a sequence.\<close>

lemma emit_over:
  assumes em: "emittable None v" and ct: "is_container v"
    and cl0: "current_label st0 = None" and os0: "object_stack st0 = stk"
    and nt: "\<not> top_is_sequence stk"
  shows "\<exists>st. run_events st0 (emit v) = Inr st \<and> root st = Some (rebuild v) \<and>
           object_stack st = stk \<and> current_label st = None"
proof -
  have "\<exists>evs e m st2. emit v = evs @ [(e, m)] \<and> closes e \<and> run_events st0 evs = Inr st2 \<and>
          current_label st2 = None \<and> object_stack st2 = stk @ [(None, rebuild v, 0)]"
  proof (cases v)
    case (String s m)
    with ct show ?thesis by simp
  next
    case (Sequence vs m)
    let ?st1 = "st0\<lparr>current_label := None, object_stack := stk @ [(None, Sequence [] m, 0)]\<rparr>"
    have run0: "run_events st0 [(SequenceStart 0, m)] = Inr ?st1"
      by (simp add: run_events_def cl0 os0)
    have "fills ?st1 (concat (map emit vs)) (stk @ [(None, Sequence ([] @ map rebuild vs) m, 0)])"
      by (rule emit_seq_body) (use em Sequence emit_fills in auto)
    then obtain st2 where run1: "run_events ?st1 (concat (map emit vs)) = Inr st2"
      and c2: "current_label st2 = None" and s2: "object_stack st2 = stk @ [(None, Sequence (map rebuild vs) m, 0)]"
      by (auto simp: fills_def)
    show ?thesis
    proof (intro exI conjI)
      show "emit v = ((SequenceStart 0, m) # concat (map emit vs)) @ [(SequenceEnd, m)]"
        by (simp add: Sequence)
      show "run_events st0 ((SequenceStart 0, m) # concat (map emit vs)) = Inr st2"
        using run0 run1 run_events_append [of st0 "[(SequenceStart 0, m)]" "concat (map emit vs)"]
        by simp
      show "object_stack st2 = stk @ [(None, rebuild v, 0)]" by (simp add: s2 Sequence)
    qed (simp_all add: c2)
  next
    case (Mapping sl es m)
    with em have sl: "sl = None" by simp
    let ?st1 = "st0\<lparr>current_label := None, object_stack := stk @ [(None, Mapping None [] m, 0)]\<rparr>"
    let ?ents = "concat (map (\<lambda>(k, v). (Scalar (name k) Plain 0 None, key_pos k m) # emit v) es)"
    have run0: "run_events st0 [(MappingStart 0, m)] = Inr ?st1"
      by (simp add: run_events_def cl0 os0)
    have "fills ?st1 ?ents (stk @ [(None, Mapping None (fold (\<lambda>(k, v) acc. im_insert k (rebuild v) acc) es []) m, 0)])"
      by (rule emit_map_body) (use em Mapping sl emit_fills in auto)
    then obtain st2 where run1: "run_events ?st1 ?ents = Inr st2" and c2: "current_label st2 = None"
      and s2: "object_stack st2 = stk @ [(None, Mapping None (fold (\<lambda>(k, v) acc. im_insert k (rebuild v) acc) es []) m, 0)]"
      by (auto simp: fills_def)
    show ?thesis
    proof (intro exI conjI)
      show "emit v = ((MappingStart 0, m) # ?ents) @ [(MappingEnd, m)]"
        by (simp add: Mapping)
      show "run_events st0 ((MappingStart 0, m) # ?ents) = Inr st2"
        using run0 run1 run_events_append [of st0 "[(MappingStart 0, m)]" ?ents]
        by simp
      show "object_stack st2 = stk @ [(None, rebuild v, 0)]" by (simp add: s2 Mapping sl)
    qed (simp_all add: c2)
  qed
  then obtain evs e m st2 where ev: "emit v = evs @ [(e, m)]" and cl: "closes e"
    and run1: "run_events st0 evs = Inr st2" and c2: "current_label st2 = None"
    and s2: "object_stack st2 = stk @ [(None, rebuild v, 0)]"
    by blast
  let ?st3 = "st2\<lparr>object_stack := stk, anchors := (anchors st2)(0 \<mapsto> rebuild v)\<rparr>"
  from cl have on_e: "on_event st2 e m = Inr (?st3\<lparr>root := Some (rebuild v)\<rparr>)"
    by (cases e) (simp_all add: end_container_returns [OF s2] nt)
  have "run_events st0 (emit v) = Inr (?st3\<lparr>root := Some (rebuild v)\<rparr>)"
    by (simp add: ev run_events_append run1) (simp add: run_events_def on_e)
  with c2 show ?thesis by auto
qed

lemma emit_root:
  "emittable None v \<Longrightarrow> is_container v \<Longrightarrow> current_label st0 = None \<Longrightarrow> object_stack st0 = [] \<Longrightarrow>
   \<exists>st. run_events st0 (emit v) = Inr st \<and> root st = Some (rebuild v) \<and>
     object_stack st = [] \<and> current_label st = None"
  by (rule emit_over) (simp_all add: top_is_sequence_def)

lemma emit_document_root:
  assumes em: "emittable None v" and ct: "is_container v"
  shows "\<exists>st. run_events marked_yaml_default (emit_document m0 v) = Inr st \<and>
           root st = Some (rebuild v) \<and> object_stack st = []"
proof -
  from emit_root [OF em ct, of marked_yaml_default] obtain st
    where r: "run_events marked_yaml_default (emit v) = Inr st" "root st = Some (rebuild v)"
      "object_stack st = []"
    by (auto simp: marked_yaml_default_def)
  have "run_events marked_yaml_default (emit_document m0 v) =
      run_events marked_yaml_default
        ([(StreamStart, m0), (DocumentStart, m0)] @ emit v @ [(DocumentEnd, m0), (StreamEnd, m0)])"
    by (simp add: emit_document_def)
  also have "\<dots> = Inr st"
    by (simp only: run_events_append run_events_doc_frame r(1) sum.case)
  finally show ?thesis using r by blast
qed


text \<open>Documents fed one after the other: each one's tree replaces the root, so the
  last one's stays.\<close>

lemma emit_docs_root:
  assumes "vs \<noteq> []" and "list_all (\<lambda>v. emittable None v \<and> is_container v) vs"
    and "current_label st0 = None" and "object_stack st0 = []"
  shows "\<exists>st. run_events st0 (concat (map (\<lambda>v. (DocumentStart, m0) # emit v @ [(DocumentEnd, m0)]) vs)) =
           Inr st \<and> root st = Some (rebuild (last vs)) \<and> object_stack st = [] \<and> current_label st = None"
  using assms
proof (induction vs arbitrary: st0)
  case (Cons v vs)
  from Cons.prems obtain st1 where r: "run_events st0 (emit v) = Inr st1"
    and st1: "root st1 = Some (rebuild v)" "object_stack st1 = []" "current_label st1 = None"
    using emit_root [of v st0] by auto
  have d: "run_events st0 ((DocumentStart, m0) # emit v @ [(DocumentEnd, m0)]) = Inr st1"
    using r by (simp add: run_events_Cons run_events_append) (simp add: run_events_def)
  show ?case
  proof (cases "vs = []")
    case True
    with d st1 show ?thesis by simp
  next
    case False
    let ?rest = "concat (map (\<lambda>v. (DocumentStart, m0) # emit v @ [(DocumentEnd, m0)]) vs)"
    from False Cons.IH [of st1] Cons.prems st1 obtain st where r2: "run_events st1 ?rest = Inr st"
      and p: "root st = Some (rebuild (last vs))" "object_stack st = []" "current_label st = None"
      by auto
    have "run_events st0 (((DocumentStart, m0) # emit v @ [(DocumentEnd, m0)]) @ ?rest) = Inr st"
      using d r2 by (simp only: run_events_append sum.case)
    with p False show ?thesis by auto
  qed
qed simp

subsection \<open>Repeated keys\<close>

lemma fold_im_insert_distinct:
  "distinct (im_names (acc @ es)) \<Longrightarrow>
   fold (\<lambda>(k, v) acc. im_insert k (f v) acc) es acc = acc @ map (\<lambda>(k, v). (k, f v)) es"
proof (induction es arbitrary: acc)
  case (Cons e es)
  obtain k v where e: "e = (k, v)" by fastforce
  with Cons.prems have "im_insert k (f v) acc = acc @ [(k, f v)]"
    by (intro im_insert_fresh) auto
  with Cons e show ?case by simp
qed simp

lemma rebuild_wf: "wf_value v \<Longrightarrow> rebuild v = v"
proof (induction v)
  case (Sequence vs m)
  then show ?case by (simp add: list_all_iff map_idI)
next
  case (Mapping sl es m)
  then have "map (\<lambda>(k, v). (k, rebuild v)) es = es"
    by (intro map_idI) (auto simp: list_all_iff)
  with Mapping.prems show ?case by (simp add: fold_im_insert_distinct)
qed simp

definition first_occ :: "'a \<Rightarrow> 'a list \<Rightarrow> 'a list" where
  "first_occ n ns = (if n \<in> set ns then ns else ns @ [n])"

lemma im_names_insert_first_occ: "im_names (im_insert k v acc) = first_occ (name k) (im_names acc)"
  by (simp add: im_names_insert first_occ_def)

lemma im_names_fold_insert:
  "im_names (fold (\<lambda>(k, v) acc. im_insert k (f v) acc) es acc) = fold first_occ (im_names es) (im_names acc)"
proof (induction es arbitrary: acc)
  case (Cons e es)
  then show ?case by (cases e) (simp add: im_names_insert_first_occ)
qed simp

lemma fold_first_occ: "fold first_occ xs [] = rev (remdups (rev xs))"
proof (induction xs rule: rev_induct)
  case (snoc x xs)
  then show ?case by (simp add: first_occ_def)
qed simp

lemma im_get_append:
  "im_get k (xs @ ys) = (case im_get k xs of None \<Rightarrow> im_get k ys | Some v \<Rightarrow> Some v)"
  by (induction xs) auto

lemma im_get_fold_insert:
  "im_get k (fold (\<lambda>(k, v) acc. im_insert k (f v) acc) es acc) =
     (case im_get k (rev es) of None \<Rightarrow> im_get k acc | Some v \<Rightarrow> Some (f v))"
proof (induction es arbitrary: acc)
  case (Cons e es)
  then show ?case
    by (cases e) (auto simp: im_get_insert im_get_append label_eq_sym split: option.splits)
qed simp

subsection \<open>The round trip through parse\<close>

text \<open>
  C1. Round trip: if the parser emits, for a source text, exactly the events of a
  well-formed document tree whose root is a sequence or a mapping, then \<^verbatim>\<open>parse\<close>
  succeeds and the loader's root is that tree, with the structure, the order of keys
  and elements, the scalar texts and every position of the source.
\<close>

theorem parse_emitted_roundtrip:
  assumes "scan (filter (\<lambda>c. c \<noteq> CHR 0x0D) src) = (emit_document m0 v, None)"
    and "emittable None v" and "wf_value v" and "is_container v"
  shows "\<exists>loader. parse scan src = Inr (Inr loader) \<and> root loader = Some v"
proof -
  from emit_document_root [OF assms(2,4)] obtain st
    where "run_events marked_yaml_default (emit_document m0 v) = Inr st" "root st = Some (rebuild v)"
    by blast
  with assms(1,3) show ?thesis by (simp add: parse_def rebuild_wf)
qed

text \<open>
  C4. Repeated keys: when the emitted root mapping repeats key names, the rebuilt
  mapping lists each name once, in the order of first occurrence, and each name is
  bound to (the rebuilt form of) its last value: later entries overwrite earlier ones
  in place.
\<close>

theorem parse_emitted_duplicate_keys:
  assumes "scan (filter (\<lambda>c. c \<noteq> CHR 0x0D) src) = (emit_document m0 (Mapping None es m), None)"
    and "emittable None (Mapping None es m)"
  shows "\<exists>loader es'. parse scan src = Inr (Inr loader) \<and> root loader = Some (Mapping None es' m) \<and>
           im_names es' = rev (remdups (rev (im_names es))) \<and>
           (\<forall>k. im_get k es' = map_option rebuild (im_get k (rev es)))"
proof -
  from emit_document_root [OF assms(2)] obtain st
    where run: "run_events marked_yaml_default (emit_document m0 (Mapping None es m)) = Inr st"
      and rt: "root st = Some (rebuild (Mapping None es m))"
    by fastforce
  let ?es' = "fold (\<lambda>(k, v) acc. im_insert k (rebuild v) acc) es []"
  have "im_names ?es' = rev (remdups (rev (im_names es)))"
    by (simp add: im_names_fold_insert fold_first_occ)
  moreover have "\<forall>k. im_get k ?es' = map_option rebuild (im_get k (rev es))"
    by (simp add: im_get_fold_insert split: option.split)
  ultimately show ?thesis
    using assms(1) run rt by (simp add: parse_def)
qed

text \<open>
  C24. Several documents in one stream: \<^verbatim>\<open>parse\<close> passes \<open>multi = true\<close> to
  \<^verbatim>\<open>Parser::load\<close>, so every document of the stream is fed to the same builder, and
  each document's tree replaces the root: the loader keeps only the last document.
\<close>

theorem parse_multi_document_keeps_last:
  assumes "scan (filter (\<lambda>c. c \<noteq> CHR 0x0D) src) = (emit_stream m0 vs, None)"
    and "vs \<noteq> []" and "list_all (\<lambda>v. emittable None v \<and> wf_value v \<and> is_container v) vs"
  shows "\<exists>loader. parse scan src = Inr (Inr loader) \<and> root loader = Some (last vs)"
proof -
  have "list_all (\<lambda>v. emittable None v \<and> is_container v) vs"
    using assms(3) by (simp add: list_all_iff)
  from emit_docs_root [OF assms(2) this, of marked_yaml_default m0] obtain st
    where r: "run_events marked_yaml_default
        (concat (map (\<lambda>v. (DocumentStart, m0) # emit v @ [(DocumentEnd, m0)]) vs)) = Inr st"
      and rt: "root st = Some (rebuild (last vs))"
    by (auto simp: marked_yaml_default_def)
  have "wf_value (last vs)" using assms(2,3) by (simp add: list_all_iff)
  then have "rebuild (last vs) = last vs" by (rule rebuild_wf)
  with r rt assms(1) show ?thesis
    by (simp add: parse_def emit_stream_def run_events_Cons run_events_append)
      (simp add: run_events_def)
qed

text \<open>
  C15. Complex keys: when a mapping with no pending key is on top of the stack and
  the parser emits a whole container (the key of an explicit \<^verbatim>\<open>? ...\<close> entry),
  \<^verbatim>\<open>end_container\<close> finds no key for it and falls through to its last arm. The
  container is not stored in the mapping: the stack is left as it was and the
  container becomes the root. The scalar that follows, the entry's value, then
  becomes the pending key instead of a value.
\<close>

theorem container_key_dropped:
  assumes em: "emittable None k" and ct: "is_container k" and cl: "current_label st = None"
    and os: "object_stack st = fs @ [(lb, Mapping cl' es m, i)]"
  shows "\<exists>st'. run_events st (emit k @ [(Scalar s sty aid tag, m')]) = Inr st' \<and>
           object_stack st' = object_stack st \<and> root st' = Some (rebuild k) \<and>
           current_label st' = Some \<lparr>name = s, marker = Some m'\<rparr>"
proof -
  have nt: "\<not> top_is_sequence (object_stack st)" by (simp add: os top_is_sequence_def)
  from emit_over [OF em ct cl refl nt] obtain st1 where r: "run_events st (emit k) = Inr st1"
    and r1: "root st1 = Some (rebuild k)" and s1: "object_stack st1 = object_stack st"
    and c1: "current_label st1 = None" by blast
  have "run_events st1 [(Scalar s sty aid tag, m')] =
      Inr (st1\<lparr>current_label := Some \<lparr>name = s, marker = Some m'\<rparr>\<rparr>)"
    using c1 nt s1 by (simp add: run_events_def add_value_as_key)
  with r r1 s1 show ?thesis by (simp add: run_events_append)
qed

end
