(* ===== verification/Yaml_Bounds.thy ===== *)
theory Yaml_Bounds
  imports Yaml_Builder
begin

text \<open>
  Resource and progress properties of the builder of
  \<^verbatim>\<open>src/apollo-router/src/configuration/yaml.rs\<close>. The stack of open containers
  grows and shrinks by one per start and end event, so its depth after a run is
  fixed by the events alone. The anchor table only grows, so an alias read after its
  anchor has been recorded takes the resolved branch of \<^verbatim>\<open>on_event\<close>.
\<close>

subsection \<open>Lemmas\<close>

lemma on_event_closes_nonempty:
  "on_event st e mk = Inr st' \<Longrightarrow> closes e \<Longrightarrow> object_stack st \<noteq> []"
  by (cases e) (auto dest: end_container_Inr split: sum.splits)

lemma run_events_depth_count:
  "run_events st evs = Inr st' \<Longrightarrow>
   length (object_stack st') + length (filter (\<lambda>x. closes (fst x)) evs) =
     length (object_stack st) + length (filter (\<lambda>x. opens (fst x)) evs)"
proof (induction evs arbitrary: st)
  case Nil
  then show ?case by (simp add: run_events_def)
next
  case (Cons x evs)
  obtain e mk where x: "x = (e, mk)" by fastforce
  from Cons.prems x obtain st1 where step: "on_event st e mk = Inr st1"
    and rest: "run_events st1 evs = Inr st'"
    by (auto simp: run_events_Cons split: sum.splits)
  from on_event_Inr_length [OF step] on_event_closes_nonempty [OF step] Cons.IH [OF rest] x
  show ?case by (cases e) auto
qed

lemma add_value_anchors:
  "anchors (add_value st mk s aid) = anchors st \<or>
   anchors (add_value st mk s aid) = (anchors st)(aid \<mapsto> String s mk)"
  by (cases "object_stack st" rule: stack_cases)
    (auto simp: add_value_def Let_def split: option.splits yvalue.splits)

lemma add_alias_value_anchors: "anchors (add_alias_value st v) = anchors st"
  by (cases "object_stack st" rule: stack_cases)
    (auto simp: add_alias_value_def Let_def split: option.splits yvalue.splits)

lemma end_container_anchors:
  "end_container st = Inr (st', r) \<Longrightarrow> object_stack st = stk @ [(l, v, i)] \<Longrightarrow>
   anchors st' = (anchors st)(i \<mapsto> v)"
  by (cases stk rule: stack_cases)
    (auto simp: end_container_def Let_def split: option.splits yvalue.splits)

lemma end_container_anchor_kept:
  "end_container st = Inr (st', r) \<Longrightarrow> anchors st a \<noteq> None \<Longrightarrow> anchors st' a \<noteq> None"
proof -
  assume ec: "end_container st = Inr (st', r)" and a: "anchors st a \<noteq> None"
  from end_container_Inr [OF ec] obtain stk l v i where "object_stack st = stk @ [(l, v, i)]"
    by (metis prod_cases3 rev_exhaust)
  from end_container_anchors [OF ec this] a show "anchors st' a \<noteq> None" by simp
qed

lemma on_event_anchor_kept:
  "on_event st e mk = Inr st' \<Longrightarrow> anchors st a \<noteq> None \<Longrightarrow> anchors st' a \<noteq> None"
proof (cases e)
  case (Scalar s sty aid tag)
  then show "on_event st e mk = Inr st' \<Longrightarrow> anchors st a \<noteq> None \<Longrightarrow> anchors st' a \<noteq> None"
    using add_value_anchors [of st mk s aid] by auto
next
  case SequenceEnd
  then show "on_event st e mk = Inr st' \<Longrightarrow> anchors st a \<noteq> None \<Longrightarrow> anchors st' a \<noteq> None"
    by (auto split: sum.splits dest: end_container_anchor_kept)
next
  case MappingEnd
  then show "on_event st e mk = Inr st' \<Longrightarrow> anchors st a \<noteq> None \<Longrightarrow> anchors st' a \<noteq> None"
    by (auto split: sum.splits dest: end_container_anchor_kept)
next
  case (Alias aid)
  then show "on_event st e mk = Inr st' \<Longrightarrow> anchors st a \<noteq> None \<Longrightarrow> anchors st' a \<noteq> None"
    by (auto simp: add_alias_value_anchors split: option.splits)
qed auto

lemma run_events_anchor_kept:
  assumes "run_events st evs = Inr st'" and "anchors st a \<noteq> None"
  shows "anchors st' a \<noteq> None"
proof -
  have step: "anchors s' a \<noteq> None"
    if "anchors s a \<noteq> None" and "(\<lambda>st (e, mk). on_event st e mk) s x = Inr s'" for s x s'
  proof -
    obtain e mk where "x = (e, mk)" by (cases x)
    with that show ?thesis by (simp add: on_event_anchor_kept del: not_None_eq)
  qed
  from run_sum_invariant [where P = "\<lambda>s. anchors s a \<noteq> None", OF step assms(2)] assms(1)
  show ?thesis by (simp add: run_events_def del: not_None_eq)
qed

subsection \<open>Properties\<close>

text \<open>
  C26. Stack depth: after a run that does not panic, the number of open containers is
  the starting number plus the start events minus the end events of the run, and the
  end events never outnumber the open containers plus the start events.
\<close>

theorem run_events_stack_depth:
  assumes "run_events st evs = Inr st'"
  shows "length (object_stack st') =
           length (object_stack st) + length (filter (\<lambda>x. opens (fst x)) evs) -
           length (filter (\<lambda>x. closes (fst x)) evs) \<and>
         length (filter (\<lambda>x. closes (fst x)) evs) \<le>
           length (object_stack st) + length (filter (\<lambda>x. opens (fst x)) evs)"
  using run_events_depth_count [OF assms] by linarith

text \<open>
  C27. Anchors stay resolvable: an id held by the anchor table at some point of a run
  is still held at its end. So an alias of that id read there takes the resolved
  branch of \<^verbatim>\<open>on_event\<close>. The pending key is consumed (the unresolved branch
  keeps it, C10), and the anchored value is placed in the top container whenever the
  placement rule accepts it there.
\<close>

theorem recorded_anchor_resolves:
  assumes "run_events st evs = Inr st'" and "anchors st a \<noteq> None"
    and "object_stack st' = fs @ [(lb, c, i)]"
  shows "\<exists>v st''. anchors st' a = Some v \<and> on_event st' (Alias a) mk = Inr st'' \<and>
           current_label st'' = None \<and>
           (\<forall>c'. insert_child (current_label st') v c = Some c' \<longrightarrow> object_stack st'' = fs @ [(lb, c', i)])"
proof -
  from run_events_anchor_kept [OF assms(1,2)] obtain v where v: "anchors st' a = Some v" by blast
  have "current_label (add_alias_value st' v) = None"
    by (simp add: add_alias_value_def Let_def split: option.split prod.split yvalue.split)
  moreover have "object_stack (add_alias_value st' v) = fs @ [(lb, c', i)]"
    if "insert_child (current_label st') v c = Some c'" for c'
    using add_alias_value_insert_child [OF assms(3) that] by simp
  ultimately show ?thesis using v by auto
qed

subsection \<open>Witnesses\<close>

abbreviation mk0 :: marker where
  "mk0 \<equiv> \<lparr>index = 0, line = 1, col = 0\<rparr>"

theorem run_events_stack_depth_witness:
  "\<exists>st'. run_events marked_yaml_default
      [(SequenceStart 0, mk0), (Scalar ''a'' Plain 0 None, mk0), (SequenceEnd, mk0)] = Inr st' \<and>
    length (object_stack st') = 0 + 1 - 1"
proof -
  have "run_events marked_yaml_default
      [(SequenceStart 0, mk0), (Scalar ''a'' Plain 0 None, mk0), (SequenceEnd, mk0)] \<noteq> Inl (Panic ''imbalanced parse events'')"
    by (simp add: run_events_def marked_yaml_default_def add_value_def end_container_def Let_def)
  then obtain st' where r: "run_events marked_yaml_default
      [(SequenceStart 0, mk0), (Scalar ''a'' Plain 0 None, mk0), (SequenceEnd, mk0)] = Inr st'"
    by (cases "run_events marked_yaml_default
      [(SequenceStart 0, mk0), (Scalar ''a'' Plain 0 None, mk0), (SequenceEnd, mk0)]")
      (auto dest: run_events_Inl)
  from run_events_stack_depth [OF r] r show ?thesis by (simp add: marked_yaml_default_def)
qed

theorem recorded_anchor_resolves_witness:
  "\<exists>st'. run_events (marked_yaml_default\<lparr>anchors := [1 \<mapsto> String ''d'' mk0]\<rparr>)
      [(MappingStart 0, mk0), (Scalar ''l'' Plain 0 None, mk0)] = Inr st' \<and>
    object_stack (add_alias_value st' (String ''d'' mk0)) =
      [(None, Mapping None [(\<lparr>name = ''l'', marker = Some mk0\<rparr>, String ''d'' mk0)] mk0, 0)]"
proof -
  let ?st0 = "marked_yaml_default\<lparr>anchors := [1 \<mapsto> String ''d'' mk0]\<rparr>"
  let ?evs = "[(MappingStart 0, mk0), (Scalar ''l'' Plain 0 None, mk0)]"
  let ?st' = "?st0\<lparr>current_label := Some \<lparr>name = ''l'', marker = Some mk0\<rparr>,
      object_stack := [(None, Mapping None [] mk0, 0)]\<rparr>"
  have r: "run_events ?st0 ?evs = Inr ?st'"
    by (simp add: run_events_def marked_yaml_default_def add_value_def Let_def)
  have a: "anchors ?st0 1 \<noteq> None" by simp
  have s: "object_stack ?st' = [] @ [(None, Mapping None [] mk0, 0)]" by simp
  from recorded_anchor_resolves [OF r a s, of mk0] obtain v st'' where
    "anchors ?st' 1 = Some v" "on_event ?st' (Alias 1) mk0 = Inr st''"
    "\<forall>c'. insert_child (current_label ?st') v (Mapping None [] mk0) = Some c' \<longrightarrow>
       object_stack st'' = [] @ [(None, c', 0)]" by blast
  with r show ?thesis by auto
qed

end
