(* ===== verification/Json_Value.thy ===== *)
theory Json_Value
  imports Prelude
begin

text \<open>
  \<^verbatim>\<open>serde_json::Value\<close>, the JSON values that both the telemetry configuration
  deserializer (\<open>Telemetry_Config\<close>) and the canned subgraph fixtures
  (\<open>Canned_Mocks\<close>) work on. An object is the list of its entries in the order written
  by the source; a JSON number is an integer, as every number of the sources is. The
  accessor reads a field of an object (\<^verbatim>\<open>Value::get\<close>).
\<close>

datatype json_value = JNull | JBool bool | JNumber int | JString string
  | JArray "json_value list" | JObject "(string \<times> json_value) list"

text \<open>\<^verbatim>\<open>Value::get(key)\<close> on an object; \<open>None\<close> on anything else.\<close>

fun json_get :: "string \<Rightarrow> json_value \<Rightarrow> json_value option" where
  "json_get k (JObject es) = map_of es k"
| "json_get k _ = None"

end
