(* ===== verification/Telemetry_Config.thy ===== *)
theory Telemetry_Config
  imports Json_Value "HOL-Library.Multiset"
begin

text \<open>
  The Apollo telemetry options of \<^verbatim>\<open>src/apollo-router/src/plugins/telemetry/apollo.rs\<close>:
  the \<^verbatim>\<open>Config\<close> struct as a record, its default helper functions, its
  \<^verbatim>\<open>Default\<close> impl, and the deserializer that \<^verbatim>\<open>#[derive(Deserialize)]\<close> generates
  from the struct's serde attributes (\<^verbatim>\<open>deny_unknown_fields\<close>, a \<^verbatim>\<open>default\<close> function
  per field, \<^verbatim>\<open>deserialize_with = "deserialize_header_name"\<close>). The deserializer reads a
  JSON value: an object through the generated \<^verbatim>\<open>visit_map\<close>, an array through the
  generated \<^verbatim>\<open>visit_seq\<close>. The process environment is a parameter (a map from variable
  names to values) and so is the URL parser of the \<^verbatim>\<open>url\<close> crate. The panic of
  \<^verbatim>\<open>HeaderName::from_static\<close> on an invalid name is the value \<open>None\<close>.
\<close>

type_synonym env = "string \<Rightarrow> string option"
type_synonym url = string
type_synonym header_name = string

text \<open>\<^verbatim>\<open>pub struct Config\<close>.\<close>

record config =
  endpoint :: "url option"
  apollo_key :: "string option"
  apollo_graph_ref :: "string option"
  client_name_header :: header_name
  client_version_header :: header_name

subsection \<open>Header names\<close>

text \<open>The characters of an HTTP header name (RFC 7230 \<open>tchar\<close>), lower case: the
  table \<^verbatim>\<open>HEADER_CHARS\<close> of the \<^verbatim>\<open>http\<close> crate maps these to themselves and the
  upper-case letters to lower case.\<close>

definition header_tchars :: string where
  "header_tchars =
     [CHR 0x21, CHR 0x23, CHR 0x24, CHR 0x25, CHR 0x26, CHR 0x27, CHR 0x2A, CHR 0x2B,
      CHR 0x2D, CHR 0x2E, CHR 0x5E, CHR 0x5F, CHR 0x60, CHR 0x7C, CHR 0x7E]
     @ ''0123456789abcdefghijklmnopqrstuvwxyz''"

definition header_upper :: string where
  "header_upper = ''ABCDEFGHIJKLMNOPQRSTUVWXYZ''"

definition header_lower :: string where
  "header_lower = ''abcdefghijklmnopqrstuvwxyz''"

text \<open>The table as an association list: each upper-case letter to its lower-case
  letter, each name character to itself; every other character is absent.\<close>

definition header_char :: "char \<Rightarrow> char option" where
  "header_char c = map_of (zip header_upper header_lower @ zip header_tchars header_tchars) c"

text \<open>\<^verbatim>\<open>HeaderName::try_from(&str)\<close> (\<^verbatim>\<open>from_bytes\<close>): empty names and names with a
  character outside the table are refused; upper case is folded to lower case.\<close>

definition header_name_from_str :: "string \<Rightarrow> header_name option" where
  "header_name_from_str s = (if s = [] then None else those (map header_char s))"

definition valid_header_name :: "string \<Rightarrow> bool" where
  "valid_header_name h \<longleftrightarrow> h \<noteq> [] \<and> list_all (\<lambda>c. c \<in> set header_tchars) h"

text \<open>\<^verbatim>\<open>HeaderName::from_static\<close>: the name as given if it is already a valid
  lower-case name; a panic (\<open>None\<close>) otherwise.\<close>

definition header_from_static :: "string \<Rightarrow> header_name option" where
  "header_from_static s = (if valid_header_name s then Some s else None)"

subsection \<open>Default helpers and the Default impl\<close>

text \<open>\<^verbatim>\<open>apollo_key_env_str\<close>, \<^verbatim>\<open>apollo_graph_ref_env_str\<close>: the defaults the JSON
  schema shows (\<^verbatim>\<open>schemars\<close> attributes).\<close>

definition apollo_key_env_str :: "string option" where
  "apollo_key_env_str = Some ''${APOLLO_KEY}''"

definition apollo_graph_ref_env_str :: "string option" where
  "apollo_graph_ref_env_str = Some ''${APOLLO_GRAPH_REF}''"

text \<open>\<^verbatim>\<open>fn apollo_key\<close> and \<^verbatim>\<open>fn apollo_graph_reference\<close>:
  \<^verbatim>\<open>std::env::var(..).ok()\<close>. The first is renamed, its source name being the
  record field's.\<close>

definition apollo_key_from_env :: "env \<Rightarrow> string option" where
  "apollo_key_from_env env = env ''APOLLO_KEY''"

definition apollo_graph_reference :: "env \<Rightarrow> string option" where
  "apollo_graph_reference env = env ''APOLLO_GRAPH_REF''"

definition client_name_header_default_str :: string where
  "client_name_header_default_str = ''apollographql-client-name''"

definition client_name_header_default :: "header_name option" where
  "client_name_header_default = header_from_static client_name_header_default_str"

definition client_version_header_default_str :: string where
  "client_version_header_default_str = ''apollographql-client-version''"

definition client_version_header_default :: "header_name option" where
  "client_version_header_default = header_from_static client_version_header_default_str"

text \<open>\<^verbatim>\<open>impl Default for Config\<close>: no endpoint, key or graph reference, the two
  default header names.\<close>

definition config_default :: "config option" where
  "config_default =
     (case (client_name_header_default, client_version_header_default) of
        (Some nh, Some vh) \<Rightarrow>
          Some \<lparr>endpoint = None, apollo_key = None, apollo_graph_ref = None,
                client_name_header = nh, client_version_header = vh\<rparr>
      | _ \<Rightarrow> None)"

subsection \<open>The derived deserializer\<close>

text \<open>The input is a \<^verbatim>\<open>serde_json::Value\<close> (\<open>json_value\<close>, theory
  \<open>Json_Value\<close>).\<close>

datatype de_error = UnknownField string | DuplicateField string | InvalidType string
  | InvalidValue string | InvalidLength nat

text \<open>A result that may also be a panic: \<open>None\<close> the panic, \<open>Some (Inl e)\<close> the
  error \<open>e\<close>, \<open>Some (Inr x)\<close> the value; and its bind, the \<^verbatim>\<open>?\<close> of the
  generated code.\<close>

type_synonym 'a de_result = "(de_error + 'a) option"

definition de_bind :: "'a de_result \<Rightarrow> ('a \<Rightarrow> 'b de_result) \<Rightarrow> 'b de_result" where
  "de_bind r f = (case r of None \<Rightarrow> None | Some (Inl e) \<Rightarrow> Some (Inl e) | Some (Inr x) \<Rightarrow> f x)"

text \<open>\<^verbatim>\<open>Option<String>\<close>, \<^verbatim>\<open>Option<Url>\<close> and \<^verbatim>\<open>deserialize_header_name\<close> on a
  JSON value: \<open>null\<close> is \<open>None\<close>, a string is read, anything else has the wrong type.\<close>

definition de_option_string :: "json_value \<Rightarrow> de_error + string option" where
  "de_option_string v =
     (case v of JNull \<Rightarrow> Inr None | JString s \<Rightarrow> Inr (Some s) | _ \<Rightarrow> Inl (InvalidType ''a string''))"

definition de_option_url :: "(string \<Rightarrow> url option) \<Rightarrow> json_value \<Rightarrow> de_error + url option" where
  "de_option_url parse_url v =
     (case v of
        JNull \<Rightarrow> Inr None
      | JString s \<Rightarrow> (case parse_url s of None \<Rightarrow> Inl (InvalidValue s) | Some u \<Rightarrow> Inr (Some u))
      | _ \<Rightarrow> Inl (InvalidType ''a URL string''))"

definition deserialize_header_name :: "json_value \<Rightarrow> de_error + header_name" where
  "deserialize_header_name v =
     (case v of
        JString s \<Rightarrow> (case header_name_from_str s of None \<Rightarrow> Inl (InvalidValue s) | Some h \<Rightarrow> Inr h)
      | _ \<Rightarrow> Inl (InvalidType ''a header name''))"

text \<open>The field names, in declaration order (the generated \<^verbatim>\<open>FIELDS\<close>).\<close>

definition config_fields :: "string list" where
  "config_fields = [''endpoint'', ''apollo_key'', ''apollo_graph_ref'', ''client_name_header'',
     ''client_version_header'']"

text \<open>The locals \<^verbatim>\<open>__field0\<close> .. \<^verbatim>\<open>__field4\<close> of the generated \<^verbatim>\<open>visit_map\<close>.\<close>

record config_acc =
  f_endpoint :: "url option option"
  f_apollo_key :: "string option option"
  f_apollo_graph_ref :: "string option option"
  f_client_name_header :: "header_name option"
  f_client_version_header :: "header_name option"

definition acc_empty :: config_acc where
  "acc_empty = \<lparr>f_endpoint = None, f_apollo_key = None, f_apollo_graph_ref = None,
     f_client_name_header = None, f_client_version_header = None\<rparr>"

text \<open>A field seen for the second time is a \<^verbatim>\<open>duplicate_field\<close> error, checked before
  its value is read.\<close>

definition set_once :: "string \<Rightarrow> 'a option \<Rightarrow> de_error + 'a \<Rightarrow> de_error + 'a option" where
  "set_once k cur r =
     (case cur of Some _ \<Rightarrow> Inl (DuplicateField k) | None \<Rightarrow> map_sum id Some r)"

text \<open>One iteration of the \<^verbatim>\<open>while let Some(key) = map.next_key()?\<close> loop; a key
  that is not a field is an \<^verbatim>\<open>unknown_field\<close> error (\<^verbatim>\<open>deny_unknown_fields\<close>).\<close>

fun visit_entry :: "(string \<Rightarrow> url option) \<Rightarrow> config_acc \<Rightarrow> string \<times> json_value \<Rightarrow>
    de_error + config_acc" where
  "visit_entry pu acc (k, v) =
     (if k = ''endpoint'' then
        map_sum id (\<lambda>x. acc\<lparr>f_endpoint := x\<rparr>) (set_once k (f_endpoint acc) (de_option_url pu v))
      else if k = ''apollo_key'' then
        map_sum id (\<lambda>x. acc\<lparr>f_apollo_key := x\<rparr>) (set_once k (f_apollo_key acc) (de_option_string v))
      else if k = ''apollo_graph_ref'' then
        map_sum id (\<lambda>x. acc\<lparr>f_apollo_graph_ref := x\<rparr>)
          (set_once k (f_apollo_graph_ref acc) (de_option_string v))
      else if k = ''client_name_header'' then
        map_sum id (\<lambda>x. acc\<lparr>f_client_name_header := x\<rparr>)
          (set_once k (f_client_name_header acc) (deserialize_header_name v))
      else if k = ''client_version_header'' then
        map_sum id (\<lambda>x. acc\<lparr>f_client_version_header := x\<rparr>)
          (set_once k (f_client_version_header acc) (deserialize_header_name v))
      else Inl (UnknownField k))"

text \<open>After the loop, a missing field takes its default: \<open>None\<close> for the endpoint
  (serde's \<^verbatim>\<open>missing_field\<close> on an \<^verbatim>\<open>Option\<close>), the \<^verbatim>\<open>default = ".."\<close> function
  for the others.\<close>

definition field_or :: "'a option \<Rightarrow> 'a de_result \<Rightarrow> 'a de_result" where
  "field_or x d = (case x of Some v \<Rightarrow> Some (Inr v) | None \<Rightarrow> d)"

definition finish_config :: "env \<Rightarrow> config_acc \<Rightarrow> config de_result" where
  "finish_config env acc =
     de_bind (field_or (f_endpoint acc) (Some (Inr None))) (\<lambda>ep.
     de_bind (field_or (f_apollo_key acc) (Some (Inr (apollo_key_from_env env)))) (\<lambda>k.
     de_bind (field_or (f_apollo_graph_ref acc) (Some (Inr (apollo_graph_reference env)))) (\<lambda>g.
     de_bind (field_or (f_client_name_header acc) (map_option Inr client_name_header_default)) (\<lambda>nh.
     de_bind (field_or (f_client_version_header acc) (map_option Inr client_version_header_default))
       (\<lambda>vh. Some (Inr \<lparr>endpoint = ep, apollo_key = k, apollo_graph_ref = g,
                        client_name_header = nh, client_version_header = vh\<rparr>))))))"

text \<open>The generated \<^verbatim>\<open>visit_map\<close>.\<close>

definition visit_map_config :: "env \<Rightarrow> (string \<Rightarrow> url option) \<Rightarrow> (string \<times> json_value) list \<Rightarrow>
    config de_result" where
  "visit_map_config env pu es =
     (case run_sum (visit_entry pu) acc_empty es of
        Inl e \<Rightarrow> Some (Inl e)
      | Inr acc \<Rightarrow> finish_config env acc)"

text \<open>The generated \<^verbatim>\<open>visit_seq\<close>: the fields in order, each from the next array
  element or, when the array is exhausted, from its default; the endpoint has no
  default and its absence is an \<^verbatim>\<open>invalid_length\<close> error. \<^verbatim>\<open>serde_json\<close> then refuses
  elements left over.\<close>

definition seq_field :: "json_value list \<Rightarrow> nat \<Rightarrow> 'a de_result \<Rightarrow> (json_value \<Rightarrow> de_error + 'a) \<Rightarrow>
    'a de_result" where
  "seq_field vs i d de = (case vec_get vs i of Some v \<Rightarrow> Some (de v) | None \<Rightarrow> d)"

definition visit_seq_config :: "env \<Rightarrow> (string \<Rightarrow> url option) \<Rightarrow> json_value list \<Rightarrow>
    config de_result" where
  "visit_seq_config env pu vs =
     de_bind (seq_field vs 0 (Some (Inl (InvalidLength 0))) (de_option_url pu)) (\<lambda>ep.
     de_bind (seq_field vs 1 (Some (Inr (apollo_key_from_env env))) de_option_string) (\<lambda>k.
     de_bind (seq_field vs 2 (Some (Inr (apollo_graph_reference env))) de_option_string) (\<lambda>g.
     de_bind (seq_field vs 3 (map_option Inr client_name_header_default) deserialize_header_name) (\<lambda>nh.
     de_bind (seq_field vs 4 (map_option Inr client_version_header_default) deserialize_header_name)
       (\<lambda>vh. if 5 < length vs then Some (Inl (InvalidLength (length vs)))
             else Some (Inr \<lparr>endpoint = ep, apollo_key = k, apollo_graph_ref = g,
                             client_name_header = nh, client_version_header = vh\<rparr>))))))"

text \<open>\<^verbatim>\<open><Config as Deserialize>::deserialize\<close> on a \<^verbatim>\<open>serde_json::Value\<close>
  (\<^verbatim>\<open>deserialize_struct\<close>).\<close>

definition deserialize_config :: "env \<Rightarrow> (string \<Rightarrow> url option) \<Rightarrow> json_value \<Rightarrow> config de_result" where
  "deserialize_config env pu v =
     (case v of
        JObject es \<Rightarrow> visit_map_config env pu es
      | JArray vs \<Rightarrow> visit_seq_config env pu vs
      | _ \<Rightarrow> Some (Inl (InvalidType ''struct Config'')))"


subsection \<open>A reference reading of the object deserializer\<close>

text \<open>The specification the generated \<^verbatim>\<open>visit_map\<close> meets: each field is read
  from the entry of its name if there is one and takes its default otherwise, the
  fields in declaration order. The bookkeeping functions below describe the loop's
  locals after a run: which fields are set, whether one entry is accepted on its own,
  and the locals after storing the entries of a map.\<close>

definition field_from :: "(string \<rightharpoonup> json_value) \<Rightarrow> string \<Rightarrow> 'a de_result \<Rightarrow>
    (json_value \<Rightarrow> de_error + 'a) \<Rightarrow> 'a de_result" where
  "field_from m k d de = (case m k of Some v \<Rightarrow> Some (de v) | None \<Rightarrow> d)"

definition config_from_map :: "env \<Rightarrow> (string \<Rightarrow> url option) \<Rightarrow> (string \<rightharpoonup> json_value) \<Rightarrow>
    config de_result" where
  "config_from_map env pu m =
     de_bind (field_from m ''endpoint'' (Some (Inr None)) (de_option_url pu)) (\<lambda>ep.
     de_bind (field_from m ''apollo_key'' (Some (Inr (apollo_key_from_env env))) de_option_string) (\<lambda>k.
     de_bind (field_from m ''apollo_graph_ref'' (Some (Inr (apollo_graph_reference env))) de_option_string)
       (\<lambda>g.
     de_bind (field_from m ''client_name_header'' (map_option Inr client_name_header_default)
       deserialize_header_name) (\<lambda>nh.
     de_bind (field_from m ''client_version_header'' (map_option Inr client_version_header_default)
       deserialize_header_name)
       (\<lambda>vh. Some (Inr \<lparr>endpoint = ep, apollo_key = k, apollo_graph_ref = g,
                        client_name_header = nh, client_version_header = vh\<rparr>))))))"

definition acc_field_set :: "config_acc \<Rightarrow> string \<Rightarrow> bool" where
  "acc_field_set acc k \<longleftrightarrow>
     k = ''endpoint'' \<and> f_endpoint acc \<noteq> None \<or> k = ''apollo_key'' \<and> f_apollo_key acc \<noteq> None \<or>
     k = ''apollo_graph_ref'' \<and> f_apollo_graph_ref acc \<noteq> None \<or>
     k = ''client_name_header'' \<and> f_client_name_header acc \<noteq> None \<or>
     k = ''client_version_header'' \<and> f_client_version_header acc \<noteq> None"

definition entry_ok :: "(string \<Rightarrow> url option) \<Rightarrow> string \<times> json_value \<Rightarrow> bool" where
  "entry_ok pu kv \<longleftrightarrow> \<not> isl (visit_entry pu acc_empty kv)"

definition stored :: "(string \<rightharpoonup> json_value) \<Rightarrow> string \<Rightarrow> (json_value \<Rightarrow> de_error + 'a) \<Rightarrow>
    'a option \<Rightarrow> 'a option" where
  "stored m k de x = (case m k of Some v \<Rightarrow> Some (projr (de v)) | None \<Rightarrow> x)"

definition acc_store :: "(string \<Rightarrow> url option) \<Rightarrow> (string \<rightharpoonup> json_value) \<Rightarrow> config_acc \<Rightarrow> config_acc" where
  "acc_store pu m acc =
     \<lparr>f_endpoint = stored m ''endpoint'' (de_option_url pu) (f_endpoint acc),
      f_apollo_key = stored m ''apollo_key'' de_option_string (f_apollo_key acc),
      f_apollo_graph_ref = stored m ''apollo_graph_ref'' de_option_string (f_apollo_graph_ref acc),
      f_client_name_header = stored m ''client_name_header'' deserialize_header_name (f_client_name_header acc),
      f_client_version_header =
        stored m ''client_version_header'' deserialize_header_name (f_client_version_header acc)\<rparr>"

subsection \<open>Header names and defaults\<close>

lemma header_lower_tchars: "set header_lower \<subseteq> set header_tchars"
  by (simp add: header_lower_def header_tchars_def)

lemma header_char_valid: "header_char c = Some d \<Longrightarrow> d \<in> set header_tchars"
  unfolding header_char_def
  by (auto dest!: map_of_SomeD set_zip_rightD intro: subsetD [OF header_lower_tchars])

lemma header_char_tchar: "c \<in> set header_tchars \<Longrightarrow> header_char c = Some c"
  unfolding header_char_def header_upper_def header_lower_def header_tchars_def
  by auto

lemma header_name_from_str_valid:
  "header_name_from_str s = Some h \<Longrightarrow> valid_header_name h"
  unfolding header_name_from_str_def valid_header_name_def
  by (auto simp: those_map_Some list_all2_conv_all_nth list_all_length header_char_valid split: if_splits)

lemma header_name_from_str_fixed:
  "valid_header_name h \<Longrightarrow> header_name_from_str h = Some h"
  unfolding header_name_from_str_def valid_header_name_def
  by (auto simp: those_map_Some list_all2_conv_all_nth list_all_length header_char_tchar)

lemma client_name_header_default_eq [simp]:
  "client_name_header_default = Some ''apollographql-client-name''"
  by (simp add: client_name_header_default_def client_name_header_default_str_def
      header_from_static_def valid_header_name_def header_tchars_def)

lemma client_version_header_default_eq [simp]:
  "client_version_header_default = Some ''apollographql-client-version''"
  by (simp add: client_version_header_default_def client_version_header_default_str_def
      header_from_static_def valid_header_name_def header_tchars_def)

lemma de_bind_Some_Inr [simp]: "de_bind (Some (Inr x)) f = f x"
  by (simp add: de_bind_def)

lemma de_bind_Some_Inl [simp]: "de_bind (Some (Inl e)) f = Some (Inl e)"
  by (simp add: de_bind_def)

lemma de_bind_None [simp]: "de_bind None f = None"
  by (simp add: de_bind_def)

lemma de_bind_eq_Inr:
  "de_bind r f = Some (Inr y) \<longleftrightarrow> (\<exists>x. r = Some (Inr x) \<and> f x = Some (Inr y))"
  by (auto simp: de_bind_def split: option.splits sum.splits)

lemma de_bind_not_None:
  "r \<noteq> None \<Longrightarrow> (\<And>x. f x \<noteq> None) \<Longrightarrow> de_bind r f \<noteq> None"
  by (auto simp: de_bind_def split: option.splits sum.splits)

lemma field_or_not_None: "d \<noteq> None \<Longrightarrow> field_or x d \<noteq> None"
  by (simp add: field_or_def split: option.splits)

lemma seq_field_not_None: "d \<noteq> None \<Longrightarrow> seq_field vs i d de \<noteq> None"
  by (simp add: seq_field_def split: option.splits)

lemma finish_config_not_None: "finish_config env acc \<noteq> None"
  unfolding finish_config_def
  by (intro de_bind_not_None field_or_not_None) simp_all

lemma visit_seq_config_not_None: "visit_seq_config env pu vs \<noteq> None"
  unfolding visit_seq_config_def
  by (intro de_bind_not_None seq_field_not_None) simp_all

lemma visit_map_config_not_None: "visit_map_config env pu es \<noteq> None"
  by (simp add: visit_map_config_def finish_config_not_None del: not_None_eq split: sum.split)

lemma deserialize_config_not_None: "deserialize_config env pu v \<noteq> None"
  by (simp add: deserialize_config_def visit_map_config_not_None visit_seq_config_not_None
      del: not_None_eq split: json_value.split)

subsection \<open>The object loop\<close>

lemma set_once_Inr: "set_once k cur r = Inr y \<longleftrightarrow> cur = None \<and> \<not> isl r \<and> y = Some (projr r)"
  by (cases r) (auto simp: set_once_def split: option.splits)

lemma entry_ok_simps [simp]:
  "entry_ok pu (''endpoint'', v) \<longleftrightarrow> \<not> isl (de_option_url pu v)"
  "entry_ok pu (''apollo_key'', v) \<longleftrightarrow> \<not> isl (de_option_string v)"
  "entry_ok pu (''apollo_graph_ref'', v) \<longleftrightarrow> \<not> isl (de_option_string v)"
  "entry_ok pu (''client_name_header'', v) \<longleftrightarrow> \<not> isl (deserialize_header_name v)"
  "entry_ok pu (''client_version_header'', v) \<longleftrightarrow> \<not> isl (deserialize_header_name v)"
  by (auto simp: entry_ok_def acc_empty_def set_once_def map_sum_sel split: sum.splits)

lemma entry_ok_field: "entry_ok pu (k, v) \<Longrightarrow> k \<in> set config_fields"
  by (auto simp: entry_ok_def config_fields_def split: if_splits)

lemma acc_store_single [simp]:
  "acc_store pu [''endpoint'' \<mapsto> v] acc = acc\<lparr>f_endpoint := Some (projr (de_option_url pu v))\<rparr>"
  "acc_store pu [''apollo_key'' \<mapsto> v] acc = acc\<lparr>f_apollo_key := Some (projr (de_option_string v))\<rparr>"
  "acc_store pu [''apollo_graph_ref'' \<mapsto> v] acc =
     acc\<lparr>f_apollo_graph_ref := Some (projr (de_option_string v))\<rparr>"
  "acc_store pu [''client_name_header'' \<mapsto> v] acc =
     acc\<lparr>f_client_name_header := Some (projr (deserialize_header_name v))\<rparr>"
  "acc_store pu [''client_version_header'' \<mapsto> v] acc =
     acc\<lparr>f_client_version_header := Some (projr (deserialize_header_name v))\<rparr>"
  by (simp_all add: acc_store_def stored_def)

lemma acc_field_set_simps [simp]:
  "acc_field_set acc ''endpoint'' \<longleftrightarrow> f_endpoint acc \<noteq> None"
  "acc_field_set acc ''apollo_key'' \<longleftrightarrow> f_apollo_key acc \<noteq> None"
  "acc_field_set acc ''apollo_graph_ref'' \<longleftrightarrow> f_apollo_graph_ref acc \<noteq> None"
  "acc_field_set acc ''client_name_header'' \<longleftrightarrow> f_client_name_header acc \<noteq> None"
  "acc_field_set acc ''client_version_header'' \<longleftrightarrow> f_client_version_header acc \<noteq> None"
  by (simp_all add: acc_field_set_def)

lemma visit_entry_unknown:
  "k \<notin> set config_fields \<Longrightarrow> visit_entry pu acc (k, v) = Inl (UnknownField k)"
  by (simp add: config_fields_def)

lemma visit_entry_fields:
  "visit_entry pu acc (''endpoint'', v) = Inr acc' \<longleftrightarrow>
     entry_ok pu (''endpoint'', v) \<and> \<not> acc_field_set acc ''endpoint'' \<and>
     acc' = acc_store pu [''endpoint'' \<mapsto> v] acc"
  "visit_entry pu acc (''apollo_key'', v) = Inr acc' \<longleftrightarrow>
     entry_ok pu (''apollo_key'', v) \<and> \<not> acc_field_set acc ''apollo_key'' \<and>
     acc' = acc_store pu [''apollo_key'' \<mapsto> v] acc"
  "visit_entry pu acc (''apollo_graph_ref'', v) = Inr acc' \<longleftrightarrow>
     entry_ok pu (''apollo_graph_ref'', v) \<and> \<not> acc_field_set acc ''apollo_graph_ref'' \<and>
     acc' = acc_store pu [''apollo_graph_ref'' \<mapsto> v] acc"
  "visit_entry pu acc (''client_name_header'', v) = Inr acc' \<longleftrightarrow>
     entry_ok pu (''client_name_header'', v) \<and> \<not> acc_field_set acc ''client_name_header'' \<and>
     acc' = acc_store pu [''client_name_header'' \<mapsto> v] acc"
  "visit_entry pu acc (''client_version_header'', v) = Inr acc' \<longleftrightarrow>
     entry_ok pu (''client_version_header'', v) \<and> \<not> acc_field_set acc ''client_version_header'' \<and>
     acc' = acc_store pu [''client_version_header'' \<mapsto> v] acc"
  by (auto simp: set_once_Inr map_sum_eq_Inr)

lemma visit_entry_Inr:
  "visit_entry pu acc (k, v) = Inr acc' \<longleftrightarrow>
     entry_ok pu (k, v) \<and> \<not> acc_field_set acc k \<and> acc' = acc_store pu [k \<mapsto> v] acc"
proof (cases "k \<in> set config_fields")
  case True
  then have "k = ''endpoint'' \<or> k = ''apollo_key'' \<or> k = ''apollo_graph_ref'' \<or>
    k = ''client_name_header'' \<or> k = ''client_version_header''"
    by (simp add: config_fields_def)
  then show ?thesis
    by (elim disjE) (simp_all only: visit_entry_fields)
next
  case False
  then have u: "visit_entry pu acc (k, v) = Inl (UnknownField k)" by (rule visit_entry_unknown)
  from False have "\<not> entry_ok pu (k, v)" using entry_ok_field by blast
  then show ?thesis unfolding u by simp
qed

declare visit_entry.simps [simp del]

lemma stored_upd:
  "m k = None \<Longrightarrow> stored m k' de (stored [k \<mapsto> v] k' de x) = stored (m(k \<mapsto> v)) k' de x"
  by (simp add: stored_def split: option.split)

lemma acc_store_upd:
  "m k = None \<Longrightarrow> acc_store pu m (acc_store pu [k \<mapsto> v] acc) = acc_store pu (m(k \<mapsto> v)) acc"
  by (simp add: acc_store_def stored_upd del: fun_upd_apply)

lemma stored_None_iff: "stored m k de x = None \<longleftrightarrow> m k = None \<and> x = None"
  by (simp add: stored_def split: option.split)

lemma acc_field_set_unknown: "k \<notin> set config_fields \<Longrightarrow> \<not> acc_field_set acc k"
  unfolding acc_field_set_def config_fields_def by simp

lemma acc_store_sel [simp]:
  "f_endpoint (acc_store pu m acc) = stored m ''endpoint'' (de_option_url pu) (f_endpoint acc)"
  "f_apollo_key (acc_store pu m acc) = stored m ''apollo_key'' de_option_string (f_apollo_key acc)"
  "f_apollo_graph_ref (acc_store pu m acc) =
     stored m ''apollo_graph_ref'' de_option_string (f_apollo_graph_ref acc)"
  "f_client_name_header (acc_store pu m acc) =
     stored m ''client_name_header'' deserialize_header_name (f_client_name_header acc)"
  "f_client_version_header (acc_store pu m acc) =
     stored m ''client_version_header'' deserialize_header_name (f_client_version_header acc)"
  by (simp_all add: acc_store_def)

lemma config_fields_cases:
  "k \<in> set config_fields \<Longrightarrow> k = ''endpoint'' \<or> k = ''apollo_key'' \<or> k = ''apollo_graph_ref'' \<or>
    k = ''client_name_header'' \<or> k = ''client_version_header''"
  by (simp add: config_fields_def)

lemma config_fields_mem [simp]:
  "''endpoint'' \<in> set config_fields" "''apollo_key'' \<in> set config_fields"
  "''apollo_graph_ref'' \<in> set config_fields" "''client_name_header'' \<in> set config_fields"
  "''client_version_header'' \<in> set config_fields"
  by (simp_all add: config_fields_def)

lemma acc_field_set_store:
  "acc_field_set (acc_store pu [k \<mapsto> v] acc) k' \<longleftrightarrow>
     acc_field_set acc k' \<or> (k' = k \<and> k \<in> set config_fields)"
proof (cases "k' \<in> set config_fields")
  case True
  then show ?thesis
    by (elim config_fields_cases [THEN disjE]; auto simp: stored_None_iff split: if_splits)
next
  case False
  then show ?thesis by (auto simp: acc_field_set_unknown)
qed

lemma acc_store_empty [simp]: "acc_store pu Map.empty acc = acc"
  by (cases acc) (simp add: acc_store_def stored_def)

lemma run_visit_Inr:
  "run_sum (visit_entry pu) acc es = Inr acc' \<longleftrightarrow>
     distinct (map fst es) \<and> list_all (entry_ok pu) es \<and>
     (\<forall>k\<in>set (map fst es). \<not> acc_field_set acc k) \<and> acc' = acc_store pu (map_of es) acc"
proof (induction es arbitrary: acc acc')
  case Nil
  then show ?case by auto
next
  case (Cons e es)
  obtain k v where e: "e = (k, v)" by (cases e)
  let ?a1 = "acc_store pu [k \<mapsto> v] acc"
  have step: "run_sum (visit_entry pu) acc (e # es) = Inr acc' \<longleftrightarrow>
      entry_ok pu (k, v) \<and> \<not> acc_field_set acc k \<and> run_sum (visit_entry pu) ?a1 es = Inr acc'"
  proof (cases "entry_ok pu (k, v) \<and> \<not> acc_field_set acc k")
    case True
    then have "visit_entry pu acc (k, v) = Inr ?a1" by (simp add: visit_entry_Inr)
    then show ?thesis using True by (simp add: e)
  next
    case False
    then have "\<forall>a. visit_entry pu acc (k, v) \<noteq> Inr a" by (simp add: visit_entry_Inr)
    then show ?thesis using False by (auto simp: e split: sum.split)
  qed
  have set_a1: "\<And>k'. entry_ok pu (k, v) \<Longrightarrow> acc_field_set ?a1 k' \<longleftrightarrow> acc_field_set acc k' \<or> k' = k"
    by (auto simp: acc_field_set_store dest: entry_ok_field)
  show ?case
  proof
    assume "run_sum (visit_entry pu) acc (e # es) = Inr acc'"
    then have ok: "entry_ok pu (k, v)" "\<not> acc_field_set acc k"
      and ih: "distinct (map fst es) \<and> list_all (entry_ok pu) es \<and>
        (\<forall>k'\<in>set (map fst es). \<not> acc_field_set ?a1 k') \<and> acc' = acc_store pu (map_of es) ?a1"
      using step Cons.IH by blast+
    then have nk: "k \<notin> set (map fst es)" using set_a1 by blast
    then have "map_of es k = None" by (simp add: map_of_eq_None_iff)
    with ok ih nk show "distinct (map fst (e # es)) \<and> list_all (entry_ok pu) (e # es) \<and>
        (\<forall>k'\<in>set (map fst (e # es)). \<not> acc_field_set acc k') \<and>
        acc' = acc_store pu (map_of (e # es)) acc"
      using set_a1 by (auto simp: e acc_store_upd)
  next
    assume r: "distinct (map fst (e # es)) \<and> list_all (entry_ok pu) (e # es) \<and>
        (\<forall>k'\<in>set (map fst (e # es)). \<not> acc_field_set acc k') \<and>
        acc' = acc_store pu (map_of (e # es)) acc"
    then have ok: "entry_ok pu (k, v)" "k \<notin> set (map fst es)" by (simp_all add: e)
    then have "map_of es k = None" by (simp add: map_of_eq_None_iff)
    moreover have "\<forall>k'\<in>set (map fst es). \<not> acc_field_set ?a1 k'"
      using r ok set_a1 by (auto simp: e)
    ultimately have "run_sum (visit_entry pu) ?a1 es = Inr (acc_store pu (map_of es) ?a1)"
      using r by (simp add: Cons.IH)
    also have "acc_store pu (map_of es) ?a1 = acc'"
      using r \<open>map_of es k = None\<close> by (simp add: e acc_store_upd)
    finally have "run_sum (visit_entry pu) ?a1 es = Inr acc'" .
    with r ok show "run_sum (visit_entry pu) acc (e # es) = Inr acc'"
      using step by (simp add: e)
  qed
qed

lemma acc_empty_sel [simp]:
  "f_endpoint acc_empty = None" "f_apollo_key acc_empty = None" "f_apollo_graph_ref acc_empty = None"
  "f_client_name_header acc_empty = None" "f_client_version_header acc_empty = None"
  by (simp_all add: acc_empty_def)

lemma acc_empty_unset: "\<not> acc_field_set acc_empty k"
  by (simp add: acc_field_set_def)

lemma entries_ok_map_of:
  "list_all (entry_ok pu) es \<Longrightarrow> map_of es k = Some v \<Longrightarrow> entry_ok pu (k, v)"
  by (auto simp: list_all_iff dest: map_of_SomeD)

lemma field_or_stored:
  "(\<And>v. m k = Some v \<Longrightarrow> \<not> isl (de v)) \<Longrightarrow> field_or (stored m k de None) d = field_from m k d de"
  by (auto simp: field_or_def stored_def field_from_def split: option.split)

lemma finish_config_store:
  assumes "list_all (entry_ok pu) es"
  shows "finish_config env (acc_store pu (map_of es) acc_empty) = config_from_map env pu (map_of es)"
proof -
  note ok = entries_ok_map_of [OF assms]
  have "field_or (stored (map_of es) ''endpoint'' (de_option_url pu) None) d =
      field_from (map_of es) ''endpoint'' d (de_option_url pu)" for d
    using ok [of "''endpoint''"] by (intro field_or_stored) simp
  moreover have "field_or (stored (map_of es) ''apollo_key'' de_option_string None) d =
      field_from (map_of es) ''apollo_key'' d de_option_string" for d
    using ok [of "''apollo_key''"] by (intro field_or_stored) simp
  moreover have "field_or (stored (map_of es) ''apollo_graph_ref'' de_option_string None) d =
      field_from (map_of es) ''apollo_graph_ref'' d de_option_string" for d
    using ok [of "''apollo_graph_ref''"] by (intro field_or_stored) simp
  moreover have "field_or (stored (map_of es) ''client_name_header'' deserialize_header_name None) d =
      field_from (map_of es) ''client_name_header'' d deserialize_header_name" for d
    using ok [of "''client_name_header''"] by (intro field_or_stored) simp
  moreover have "field_or (stored (map_of es) ''client_version_header'' deserialize_header_name None) d =
      field_from (map_of es) ''client_version_header'' d deserialize_header_name" for d
    using ok [of "''client_version_header''"] by (intro field_or_stored) simp
  ultimately show ?thesis by (simp add: finish_config_def config_from_map_def)
qed

lemma config_from_map_Inr:
  "config_from_map env pu m = Some (Inr c) \<longleftrightarrow>
     field_from m ''endpoint'' (Some (Inr None)) (de_option_url pu) = Some (Inr (endpoint c)) \<and>
     field_from m ''apollo_key'' (Some (Inr (apollo_key_from_env env))) de_option_string =
       Some (Inr (apollo_key c)) \<and>
     field_from m ''apollo_graph_ref'' (Some (Inr (apollo_graph_reference env))) de_option_string =
       Some (Inr (apollo_graph_ref c)) \<and>
     field_from m ''client_name_header'' (map_option Inr client_name_header_default)
       deserialize_header_name = Some (Inr (client_name_header c)) \<and>
     field_from m ''client_version_header'' (map_option Inr client_version_header_default)
       deserialize_header_name = Some (Inr (client_version_header c))"
  by (cases c) (auto simp: config_from_map_def de_bind_eq_Inr simp del: map_option_case)

lemma field_from_Inr_Some:
  "field_from m k d de = Some (Inr x) \<Longrightarrow> m k = Some v \<Longrightarrow> \<not> isl (de v)"
  by (simp add: field_from_def)

lemma config_from_map_entry_ok:
  assumes c: "config_from_map env pu m = Some (Inr c)" and v: "m k = Some v"
    and k: "k \<in> set config_fields"
  shows "entry_ok pu (k, v)"
  using config_fields_cases [OF k] c v
  by (elim disjE) (auto simp: config_from_map_Inr dest: field_from_Inr_Some)

lemma visit_map_config_Inr_iff:
  "visit_map_config env pu es = Some (Inr c) \<longleftrightarrow>
     distinct (map fst es) \<and> set (map fst es) \<subseteq> set config_fields \<and>
     config_from_map env pu (map_of es) = Some (Inr c)"
proof
  assume h: "visit_map_config env pu es = Some (Inr c)"
  then obtain acc where r: "run_sum (visit_entry pu) acc_empty es = Inr acc"
    and f: "finish_config env acc = Some (Inr c)"
    by (auto simp: visit_map_config_def split: sum.splits)
  from r have d: "distinct (map fst es)" and ok: "list_all (entry_ok pu) es"
    and acc: "acc = acc_store pu (map_of es) acc_empty"
    by (simp_all add: run_visit_Inr)
  from ok have "set (map fst es) \<subseteq> set config_fields"
    by (auto simp: list_all_iff dest: entry_ok_field)
  with d f acc ok show "distinct (map fst es) \<and> set (map fst es) \<subseteq> set config_fields \<and>
     config_from_map env pu (map_of es) = Some (Inr c)"
    by (simp add: finish_config_store)
next
  assume h: "distinct (map fst es) \<and> set (map fst es) \<subseteq> set config_fields \<and>
     config_from_map env pu (map_of es) = Some (Inr c)"
  have ok: "list_all (entry_ok pu) es"
    unfolding list_all_iff
  proof
    fix e assume "e \<in> set es"
    moreover obtain k v where e: "e = (k, v)" by (cases e)
    ultimately have m: "map_of es k = Some v" and "k \<in> set config_fields"
      using h by (auto intro: map_of_is_SomeI)
    with h show "entry_ok pu e"
      unfolding e by (blast intro: config_from_map_entry_ok)
  qed
  with h have "run_sum (visit_entry pu) acc_empty es = Inr (acc_store pu (map_of es) acc_empty)"
    by (simp add: run_visit_Inr acc_empty_unset)
  with h ok show "visit_map_config env pu es = Some (Inr c)"
    by (simp add: visit_map_config_def finish_config_store)
qed

subsection \<open>Arrays and objects\<close>

lemmas seq_map_unfold = visit_seq_config_def visit_map_config_def seq_field_def vec_get_def
  config_fields_def visit_entry.simps set_once_def finish_config_def field_or_def

lemma seq_map_agree_5:
  "visit_seq_config env pu [a, b, c, d, e] = visit_map_config env pu (zip config_fields [a, b, c, d, e])"
  by (cases "de_option_url pu a"; cases "de_option_string b"; cases "de_option_string c";
      cases "deserialize_header_name d"; cases "deserialize_header_name e") (simp_all add: seq_map_unfold)

lemma seq_map_agree_4:
  "visit_seq_config env pu [a, b, c, d] = visit_map_config env pu (zip config_fields [a, b, c, d])"
  by (cases "de_option_url pu a"; cases "de_option_string b"; cases "de_option_string c";
      cases "deserialize_header_name d") (simp_all add: seq_map_unfold)

lemma seq_map_agree_3:
  "visit_seq_config env pu [a, b, c] = visit_map_config env pu (zip config_fields [a, b, c])"
  by (cases "de_option_url pu a"; cases "de_option_string b"; cases "de_option_string c")
     (simp_all add: seq_map_unfold)

lemma seq_map_agree_2:
  "visit_seq_config env pu [a, b] = visit_map_config env pu (zip config_fields [a, b])"
  by (cases "de_option_url pu a"; cases "de_option_string b") (simp_all add: seq_map_unfold)

lemma seq_map_agree_1:
  "visit_seq_config env pu [a] = visit_map_config env pu (zip config_fields [a])"
  by (cases "de_option_url pu a") (simp_all add: seq_map_unfold)

lemma seq_map_agree:
  assumes "vs \<noteq> []" and "length vs \<le> 5"
  shows "visit_seq_config env pu vs = visit_map_config env pu (zip config_fields vs)"
proof -
  from assms have "0 < length vs" by simp
  with assms(2) have "length vs \<in> {1, 2, 3, 4, 5}" by (simp only: insert_iff empty_iff) presburger
  then show ?thesis
    by (auto simp: length_Suc_conv numeral_eq_Suc seq_map_agree_1 seq_map_agree_2 seq_map_agree_3
        seq_map_agree_4 seq_map_agree_5)
qed


subsection \<open>Lemmas for the properties\<close>

lemma mset_distinct_map_of:
  assumes "mset es' = mset es" and "distinct (map fst es)"
  shows "distinct (map fst es')" and "set (map fst es') = set (map fst es)" and "map_of es' = map_of es"
proof -
  have m: "mset (map fst es') = mset (map fst es)" by (simp add: assms(1))
  have s: "set es' = set es" by (rule mset_eq_setD [OF assms(1)])
  show d: "distinct (map fst es')" using mset_eq_imp_distinct_iff [OF m] assms(2) by simp
  show "set (map fst es') = set (map fst es)" using s by simp
  show "map_of es' = map_of es" using map_of_inject_set [OF d assms(2)] s by simp
qed

lemma deserialize_client_name_header:
  "header_name_from_str s = Some h \<Longrightarrow>
   deserialize_config env pu (JObject [(''client_name_header'', JString s)]) =
     Some (Inr \<lparr>endpoint = None, apollo_key = apollo_key_from_env env,
       apollo_graph_ref = apollo_graph_reference env, client_name_header = h,
       client_version_header = ''apollographql-client-version''\<rparr>)"
  by (simp add: deserialize_config_def visit_map_config_def visit_entry.simps set_once_def
      deserialize_header_name_def finish_config_def field_or_def acc_empty_def)

subsection \<open>Witness data\<close>

definition env_example :: env where
  "env_example x = (if x = ''APOLLO_KEY'' then Some ''service:key'' else None)"

lemmas config_eval = deserialize_config_def visit_map_config_def visit_entry.simps set_once_def
  finish_config_def field_or_def acc_empty_def de_option_string_def de_option_url_def
  deserialize_header_name_def header_name_from_str_def header_char_def header_upper_def header_lower_def
  header_tchars_def apollo_key_from_env_def apollo_graph_reference_def env_example_def

subsection \<open>Properties of the telemetry configuration\<close>

text \<open>
  C16. Deserializing an empty object gives no endpoint, the key and graph reference
  read from the environment variables \<^verbatim>\<open>APOLLO_KEY\<close> and
  \<^verbatim>\<open>APOLLO_GRAPH_REF\<close>, and the two default header names.
\<close>

theorem deserialize_empty_object:
  "deserialize_config env pu (JObject []) =
     Some (Inr \<lparr>endpoint = None, apollo_key = env ''APOLLO_KEY'', apollo_graph_ref = env ''APOLLO_GRAPH_REF'',
                client_name_header = ''apollographql-client-name'',
                client_version_header = ''apollographql-client-version''\<rparr>)"
  by (simp add: deserialize_config_def visit_map_config_def finish_config_def field_or_def
      apollo_key_from_env_def apollo_graph_reference_def)

text \<open>
  C17. The \<^verbatim>\<open>Default\<close> impl agrees with deserializing an empty object exactly when
  neither environment variable is set: \<^verbatim>\<open>Config::default()\<close> never reads the
  environment, the deserializer's defaults do.
\<close>

theorem default_is_empty_object_iff_env_unset:
  "deserialize_config env pu (JObject []) = map_option Inr config_default \<longleftrightarrow>
     env ''APOLLO_KEY'' = None \<and> env ''APOLLO_GRAPH_REF'' = None"
  by (simp add: deserialize_config_def visit_map_config_def finish_config_def field_or_def
      apollo_key_from_env_def apollo_graph_reference_def config_default_def)

text \<open>
  C18. The object deserializer meets its reference reading: it succeeds with a
  configuration exactly when the keys are distinct field names and reading each field
  from its entry, or from its default when absent, succeeds with that configuration.
\<close>

theorem deserialize_object_refines:
  "deserialize_config env pu (JObject es) = Some (Inr c) \<longleftrightarrow>
     distinct (map fst es) \<and> set (map fst es) \<subseteq> set config_fields \<and>
     config_from_map env pu (map_of es) = Some (Inr c)"
  by (simp add: deserialize_config_def visit_map_config_Inr_iff)

text \<open>
  C19. The order of an object's entries does not matter: a reordering of entries
  that deserialize successfully deserializes to the same configuration.
\<close>

theorem deserialize_object_order_irrelevant:
  assumes "mset es' = mset es" and "deserialize_config env pu (JObject es) = Some (Inr c)"
  shows "deserialize_config env pu (JObject es') = Some (Inr c)"
proof -
  from assms(2) have h: "distinct (map fst es) \<and> set (map fst es) \<subseteq> set config_fields \<and>
      config_from_map env pu (map_of es) = Some (Inr c)"
    by (simp add: deserialize_config_def visit_map_config_Inr_iff)
  with mset_distinct_map_of [OF assms(1)] show ?thesis
    by (simp add: deserialize_config_def visit_map_config_Inr_iff)
qed

text \<open>
  C20. An object with a key that is not a field (\<^verbatim>\<open>deny_unknown_fields\<close>) or with a
  repeated key is rejected with an error, never accepted and never a panic.
\<close>

theorem deserialize_rejects_bad_keys:
  assumes "\<not> distinct (map fst es) \<or> \<not> set (map fst es) \<subseteq> set config_fields"
  shows "\<exists>e. deserialize_config env pu (JObject es) = Some (Inl e)"
proof -
  have "deserialize_config env pu (JObject es) \<noteq> None" by (rule deserialize_config_not_None)
  moreover have "\<forall>c. deserialize_config env pu (JObject es) \<noteq> Some (Inr c)"
    using assms by (auto simp: deserialize_config_def visit_map_config_Inr_iff)
  ultimately show ?thesis by (metis not_None_eq sum.exhaust)
qed

text \<open>
  C21. A client name header read from the configuration is normalised: the stored
  name is the parsed (lower-case) name, and writing that name back into the
  configuration deserializes to the same configuration.
\<close>

theorem client_name_header_roundtrip:
  assumes "header_name_from_str s = Some h"
  shows "\<exists>c. deserialize_config env pu (JObject [(''client_name_header'', JString s)]) = Some (Inr c) \<and>
           client_name_header c = h \<and> valid_header_name h \<and>
           deserialize_config env pu (JObject [(''client_name_header'', JString h)]) = Some (Inr c)"
  using deserialize_client_name_header [OF assms]
    deserialize_client_name_header [OF header_name_from_str_fixed [OF header_name_from_str_valid [OF assms]]]
    header_name_from_str_valid [OF assms]
  by simp

text \<open>
  C22. Deserialization never panics and neither does \<^verbatim>\<open>Config::default()\<close>: the
  static default header names are accepted by \<^verbatim>\<open>HeaderName::from_static\<close>.
\<close>

theorem deserialize_never_panics:
  "deserialize_config env pu v \<noteq> None \<and> config_default \<noteq> None"
  using deserialize_config_not_None by (simp add: config_default_def)

text \<open>
  C23. A non-empty array of at most five elements deserializes exactly as the
  object that gives those elements the field names in declaration order, errors
  included.
\<close>

theorem deserialize_array_agrees:
  assumes "vs \<noteq> []" and "length vs \<le> 5"
  shows "deserialize_config env pu (JArray vs) = deserialize_config env pu (JObject (zip config_fields vs))"
  using seq_map_agree [OF assms] by (simp add: deserialize_config_def)

subsection \<open>Witnesses\<close>

definition default_headers_config :: "string option \<Rightarrow> config" where
  "default_headers_config k = \<lparr>endpoint = None, apollo_key = k, apollo_graph_ref = None,
     client_name_header = ''apollographql-client-name'',
     client_version_header = ''apollographql-client-version''\<rparr>"

theorem default_is_empty_object_iff_env_unset_witness:
  "deserialize_config env_example Some (JObject []) \<noteq> map_option Inr config_default"
  using default_is_empty_object_iff_env_unset [of env_example Some] by (simp add: env_example_def)

theorem deserialize_object_refines_witness:
  "deserialize_config env_example Some (JObject [(''apollo_key'', JNull)]) =
     Some (Inr (default_headers_config None))"
  using deserialize_object_refines [of env_example Some "[(''apollo_key'', JNull)]" "default_headers_config None"]
  by (simp add: config_from_map_def field_from_def config_fields_def de_option_string_def
      default_headers_config_def apollo_graph_reference_def env_example_def)

theorem deserialize_object_order_irrelevant_witness:
  "mset [(''endpoint'', JNull), (''apollo_key'', JString ''k'')] =
     mset [(''apollo_key'', JString ''k''), (''endpoint'', JNull)] \<and>
   deserialize_config env_example Some (JObject [(''apollo_key'', JString ''k''), (''endpoint'', JNull)]) =
     Some (Inr (default_headers_config (Some ''k''))) \<and>
   deserialize_config env_example Some (JObject [(''endpoint'', JNull), (''apollo_key'', JString ''k'')]) =
     Some (Inr (default_headers_config (Some ''k'')))"
proof -
  have m: "mset [(''endpoint'', JNull), (''apollo_key'', JString ''k'')] =
     mset [(''apollo_key'', JString ''k''), (''endpoint'', JNull)]" by simp
  have h: "deserialize_config env_example Some (JObject [(''apollo_key'', JString ''k''), (''endpoint'', JNull)]) =
     Some (Inr (default_headers_config (Some ''k'')))"
    by (simp add: config_eval default_headers_config_def)
  show ?thesis using deserialize_object_order_irrelevant [OF m h] m h by simp
qed

theorem deserialize_rejects_bad_keys_witness:
  "\<exists>e. deserialize_config env_example Some (JObject [(''endpoint'', JNull), (''endpoint'', JNull)]) = Some (Inl e)"
  using deserialize_rejects_bad_keys [of "[(''endpoint'', JNull), (''endpoint'', JNull)]"] by simp

theorem client_name_header_roundtrip_witness:
  "header_name_from_str ''X-Client'' = Some ''x-client'' \<and>
   deserialize_config env_example Some (JObject [(''client_name_header'', JString ''x-client'')]) =
     deserialize_config env_example Some (JObject [(''client_name_header'', JString ''X-Client'')])"
proof -
  have h: "header_name_from_str ''X-Client'' = Some ''x-client''"
    by (simp add: header_name_from_str_def header_char_def header_upper_def header_lower_def header_tchars_def)
  from client_name_header_roundtrip [OF h, of env_example Some] h show ?thesis by auto
qed

theorem deserialize_array_agrees_witness:
  "deserialize_config env_example Some (JArray [JNull, JString ''k'']) =
     deserialize_config env_example Some (JObject [(''endpoint'', JNull), (''apollo_key'', JString ''k'')])"
  using deserialize_array_agrees [of "[JNull, JString ''k'']" env_example Some] by (simp add: config_fields_def)

end
