(* ===== verification/Canned_Mocks.thy ===== *)
theory Canned_Mocks
  imports Json_Value
begin

text \<open>
  The canned subgraph fixtures of
  \<^verbatim>\<open>src/apollo-router-core/src/plugin/utils/test/mock/canned.rs\<close>. Each function
  (\<^verbatim>\<open>accounts_subgraph\<close>, \<^verbatim>\<open>reviews_subgraph\<close>, \<^verbatim>\<open>products_subgraph\<close>)
  writes a vector of (request, response) JSON pairs, converts both sides with
  \<^verbatim>\<open>serde_json::from_value(..).unwrap()\<close>, collects the pairs into the map of a
  \<^verbatim>\<open>MockSubgraph\<close> and wraps it. The JSON literals are transcribed as they are written.
  The conversions into the router's request and response types are parameters
  returning \<open>None\<close> where \<^verbatim>\<open>unwrap\<close> panics, and the whole table is then \<open>None\<close>;
  \<^verbatim>\<open>collect\<close> into a hash map keeps the last response of a repeated request.

  Together the fixtures are one execution of the federated query
  \<^verbatim>\<open>TopProducts\<close>: the products subgraph lists the top products, the reviews
  subgraph is asked for the reviews of those products, the accounts subgraph for their
  authors and the products subgraph again for the reviewed products' names. The
  lemmas show that each table built from its fixture list answers every request of the
  list with its response, whatever the conversions, as long as they keep the
  operation name.
\<close>

subsection \<open>The fixtures\<close>

abbreviation rep :: "string \<Rightarrow> string \<Rightarrow> string \<Rightarrow> json_value" where
  "rep t k v \<equiv> JObject [(''__typename'', JString t), (k, JString v)]"

definition accounts_mocks :: "(json_value \<times> json_value) list" where
  "accounts_mocks =
    [(JObject
        [(''query'', JString ''query TopProducts__accounts__3($representations:[_Any!]!){_entities(representations:$representations){...on User{name}}}''),
         (''operationName'', JString ''TopProducts__accounts__3''),
         (''variables'', JObject [(''representations'',
            JArray [rep ''User'' ''id'' ''1'', rep ''User'' ''id'' ''2'', rep ''User'' ''id'' ''1''])])],
      JObject [(''data'', JObject [(''_entities'', JArray
        [JObject [(''name'', JString ''Ada Lovelace'')], JObject [(''name'', JString ''Alan Turing'')],
         JObject [(''name'', JString ''Ada Lovelace'')]])])])]"

definition reviews_mocks :: "(json_value \<times> json_value) list" where
  "reviews_mocks =
    [(JObject
        [(''query'', JString ''query TopProducts__reviews__1($representations:[_Any!]!){_entities(representations:$representations){...on Product{reviews{id product{__typename upc}author{__typename id}}}}}''),
         (''operationName'', JString ''TopProducts__reviews__1''),
         (''variables'', JObject [(''representations'',
            JArray [rep ''Product'' ''upc'' ''1'', rep ''Product'' ''upc'' ''2''])])],
      JObject [(''data'', JObject [(''_entities'', JArray
        [JObject [(''reviews'', JArray
           [JObject [(''id'', JString ''1''), (''product'', rep ''Product'' ''upc'' ''1''),
                     (''author'', rep ''User'' ''id'' ''1'')],
            JObject [(''id'', JString ''4''), (''product'', rep ''Product'' ''upc'' ''1''),
                     (''author'', rep ''User'' ''id'' ''2'')]])],
         JObject [(''reviews'', JArray
           [JObject [(''id'', JString ''2''), (''product'', rep ''Product'' ''upc'' ''2''),
                     (''author'', rep ''User'' ''id'' ''1'')]])]])])])]"

definition products_mocks :: "(json_value \<times> json_value) list" where
  "products_mocks =
    [(JObject
        [(''query'', JString ''query TopProducts__products__0($first:Int){topProducts(first:$first){__typename upc name}}''),
         (''operationName'', JString ''TopProducts__products__0''),
         (''variables'', JObject [(''first'', JNumber 2)])],
      JObject [(''data'', JObject [(''topProducts'', JArray
        [JObject [(''__typename'', JString ''Product''), (''upc'', JString ''1''), (''name'', JString ''Table'')],
         JObject [(''__typename'', JString ''Product''), (''upc'', JString ''2''), (''name'', JString ''Couch'')]])])]),
     (JObject
        [(''query'', JString ''query TopProducts__products__2($representations:[_Any!]!){_entities(representations:$representations){...on Product{name}}}''),
         (''operationName'', JString ''TopProducts__products__2''),
         (''variables'', JObject [(''representations'',
            JArray [rep ''Product'' ''upc'' ''1'', rep ''Product'' ''upc'' ''1'', rep ''Product'' ''upc'' ''2''])])],
      JObject [(''data'', JObject [(''_entities'', JArray
        [JObject [(''name'', JString ''Table'')], JObject [(''name'', JString ''Table'')],
         JObject [(''name'', JString ''Couch'')]])])])]"

subsection \<open>Building a mock subgraph\<close>

text \<open>\<^verbatim>\<open>.into_iter().map(|(query, response)| (from_value(query).unwrap(),
  from_value(response).unwrap())).collect()\<close> into a hash map: the first failed
  conversion panics (\<open>None\<close>); otherwise the map, where a later pair overrides an earlier
  one with the same request.\<close>

definition convert_pair :: "(json_value \<Rightarrow> 'q option) \<Rightarrow> (json_value \<Rightarrow> 'r option) \<Rightarrow>
    json_value \<times> json_value \<Rightarrow> ('q \<times> 'r) option" where
  "convert_pair cq cr p =
     (case cq (fst p) of None \<Rightarrow> None | Some q \<Rightarrow> (case cr (snd p) of None \<Rightarrow> None | Some r \<Rightarrow> Some (q, r)))"

definition mock_table :: "(json_value \<Rightarrow> 'q option) \<Rightarrow> (json_value \<Rightarrow> 'r option) \<Rightarrow>
    (json_value \<times> json_value) list \<Rightarrow> ('q \<rightharpoonup> 'r) option" where
  "mock_table cq cr mocks = map_option (\<lambda>ps. map_of (rev ps)) (those (map (convert_pair cq cr) mocks))"

text \<open>The three functions; \<^verbatim>\<open>MockSubgraph::new\<close> wraps the map.\<close>

definition accounts_subgraph :: "(json_value \<Rightarrow> 'q option) \<Rightarrow> (json_value \<Rightarrow> 'r option) \<Rightarrow> ('q \<rightharpoonup> 'r) option" where
  "accounts_subgraph cq cr = mock_table cq cr accounts_mocks"

definition reviews_subgraph :: "(json_value \<Rightarrow> 'q option) \<Rightarrow> (json_value \<Rightarrow> 'r option) \<Rightarrow> ('q \<rightharpoonup> 'r) option" where
  "reviews_subgraph cq cr = mock_table cq cr reviews_mocks"

definition products_subgraph :: "(json_value \<Rightarrow> 'q option) \<Rightarrow> (json_value \<Rightarrow> 'r option) \<Rightarrow> ('q \<rightharpoonup> 'r) option" where
  "products_subgraph cq cr = mock_table cq cr products_mocks"


subsection \<open>Lemmas\<close>

lemma convert_pair_Some:
  "convert_pair cq cr (j, k) = Some p \<longleftrightarrow> (\<exists>q r. cq j = Some q \<and> cr k = Some r \<and> p = (q, r))"
  by (auto simp: convert_pair_def split: option.splits)

lemma convert_pair_key:
  assumes "convert_pair cq cr x = Some y" and "\<And>j q. cq j = Some q \<Longrightarrow> f q = g j"
  shows "f (fst y) = g (fst x)"
proof -
  obtain j k where x: "x = (j, k)" by (cases x)
  with assms(1) obtain q r where "cq j = Some q" "y = (q, r)" by (auto simp: convert_pair_Some)
  with x assms(2) show ?thesis by simp
qed

lemma map_of_rev_distinct:
  "distinct (map fst ps) \<Longrightarrow> (q, r) \<in> set ps \<Longrightarrow> map_of (rev ps) q = Some r"
  by (rule map_of_is_SomeI) (simp_all only: set_rev distinct_rev rev_map [symmetric])

text \<open>A converted table answers every pair of its fixture list, if the conversion of
  requests keeps a key that is distinct across the list.\<close>

lemma mock_table_lookup:
  assumes t: "mock_table cq cr mocks = Some t" and m: "(j, k) \<in> set mocks"
    and key: "\<And>j q. cq j = Some q \<Longrightarrow> f q = g j" and d: "distinct (map (\<lambda>p. g (fst p)) mocks)"
  shows "\<exists>q r. cq j = Some q \<and> cr k = Some r \<and> t q = Some r"
proof -
  from t obtain ps where ps: "those (map (convert_pair cq cr) mocks) = Some ps" and tt: "t = map_of (rev ps)"
    by (auto simp: mock_table_def)
  from ps have la: "list_all2 (\<lambda>x y. convert_pair cq cr x = Some y) mocks ps"
    by (simp only: those_map_Some)
  from list_all2_in_set1 [OF la m] obtain p where p: "p \<in> set ps" "convert_pair cq cr (j, k) = Some p"
    by blast
  then obtain q r where qr: "cq j = Some q" "cr k = Some r" "p = (q, r)"
    by (auto simp: convert_pair_Some)
  have "map (\<lambda>p. f (fst p)) ps = map (\<lambda>p. g (fst p)) mocks"
    by (rule list_all2_map_eq [OF la]) (rule convert_pair_key [OF _ key])
  with d have "distinct (map f (map fst ps))" by (simp add: comp_def)
  then have "distinct (map fst ps)" by (simp only: distinct_map)
  from map_of_rev_distinct [OF this] p(1) qr(3) have "map_of (rev ps) q = Some r" by simp
  with qr tt show ?thesis by simp
qed

subsection \<open>Properties of the fixtures\<close>

text \<open>
  C25. Every mock subgraph answers each of its canned requests with its canned
  response, whatever the request and response conversions are, as long as converting a
  request keeps its operation name: the operation names of each fixture list are
  distinct, so \<^verbatim>\<open>collect\<close> into the hash map loses no pair.
\<close>

theorem canned_tables_answer_requests:
  assumes "\<And>j q. cq j = Some q \<Longrightarrow> op_name q = json_get ''operationName'' j"
    and "(sub, mocks) \<in> {(accounts_subgraph, accounts_mocks), (reviews_subgraph, reviews_mocks),
                         (products_subgraph, products_mocks)}"
    and "sub cq cr = Some t" and "(j, k) \<in> set mocks"
  shows "\<exists>q r. cq j = Some q \<and> cr k = Some r \<and> t q = Some r"
proof -
  from assms(2) have "distinct (map (\<lambda>p. json_get ''operationName'' (fst p)) mocks) \<and>
      sub cq cr = mock_table cq cr mocks"
    by (elim insertE emptyE)
      (simp_all add: accounts_mocks_def reviews_mocks_def products_mocks_def
        accounts_subgraph_def reviews_subgraph_def products_subgraph_def)
  with assms(3) have d: "distinct (map (\<lambda>p. json_get ''operationName'' (fst p)) mocks)"
    and t: "mock_table cq cr mocks = Some t" by simp_all
  from mock_table_lookup [OF t assms(4), of op_name "json_get ''operationName''", OF assms(1) d]
  show ?thesis .
qed

subsection \<open>Witness\<close>

text \<open>The products table read at the JSON level (conversions that keep the value), and
  its answer for the entity request.\<close>

theorem canned_tables_answer_requests_witness:
  "\<exists>t. products_subgraph Some Some = Some t \<and>
     t (fst (products_mocks ! 1)) = Some (snd (products_mocks ! 1))"
proof -
  have c: "convert_pair Some Some = Some" by (rule ext) (simp add: convert_pair_def)
  have "those (map Some xs) = Some xs" for xs :: "(json_value \<times> json_value) list"
    by (induction xs) simp_all
  then have t: "products_subgraph Some Some = Some (map_of (rev products_mocks))"
    by (simp add: products_subgraph_def mock_table_def c)
  have k: "\<And>j q. Some j = Some q \<Longrightarrow> json_get ''operationName'' q = json_get ''operationName'' j"
    by simp
  have m: "(products_subgraph, products_mocks) \<in> {(accounts_subgraph, accounts_mocks),
      (reviews_subgraph, reviews_mocks), (products_subgraph, products_mocks)}" by simp
  have p: "(fst (products_mocks ! 1), snd (products_mocks ! 1)) \<in> set products_mocks"
    by (simp add: products_mocks_def)
  from canned_tables_answer_requests [where cq = Some and cr = Some and op_name = "json_get ''operationName''",
      OF k m t p]
  show ?thesis using t by auto
qed

end
