(* ===== verification/Spec2Isabelle.thy ===== *)
theory Spec2Isabelle
  imports Yaml_Pointer Yaml_Roundtrip Yaml_Bounds Telemetry_Config Canned_Mocks
begin

text \<open>
  \<^bold>\<open>A verification development for the position-preserving YAML builder and the
  telemetry options of the Apollo router.\<close>

  \<^medskip>\<^bold>\<open>The program.\<close> The repository excerpt has three files.
  \<^verbatim>\<open>src/apollo-router/src/configuration/yaml.rs\<close> is the core: configuration
  validation reparses the YAML source with \<^verbatim>\<open>yaml_rust\<close>'s event parser and rebuilds
  a tree (\<^verbatim>\<open>Value\<close>) in which every node keeps its source position
  (\<^verbatim>\<open>Marker\<close>), so that a JSON pointer produced by schema validation can be turned
  back into a line and column (\<^verbatim>\<open>get_element\<close>, \<^verbatim>\<open>end_marker\<close>). Its parts
  interact as follows:
  \<^item> the event source (\<^verbatim>\<open>yaml_rust::Parser\<close>, external) emits events with markers;
  \<^item> the builder \<^verbatim>\<open>MarkedYaml\<close> receives them one by one (\<^verbatim>\<open>on_event\<close>), keeping a
    stack of open containers, a pending mapping key and an anchor table, and sets the
    root when the outermost container closes;
  \<^item> the navigator \<^verbatim>\<open>get_element\<close> walks the finished tree along a pointer;
  \<^item> \<^verbatim>\<open>parse\<close> strips carriage returns, drives the parser into a fresh builder and
    turns a scanner error into \<^verbatim>\<open>ConfigurationError::InvalidConfiguration\<close>.
  \<^verbatim>\<open>src/apollo-router/src/plugins/telemetry/apollo.rs\<close> is the telemetry
  \<^verbatim>\<open>Config\<close> struct: its default helpers, its \<^verbatim>\<open>Default\<close> impl, and the
  deserializer serde derives from its attributes. The third file,
  \<^verbatim>\<open>src/apollo-router-core/src/plugin/utils/test/mock/canned.rs\<close>, builds three mock
  subgraphs from canned (request, response) JSON pairs for the router's tests.

  \<^medskip>\<^bold>\<open>Theories.\<close>
  \<^item> \<open>Prelude\<close>: the Rust \<^verbatim>\<open>Vec\<close>/\<^verbatim>\<open>IndexMap\<close> accessors (\<open>vec_last\<close>,
    \<open>vec_pop\<close>, \<open>vec_get\<close>; a vector is a list whose last element is the top), the
    short-circuiting loop \<open>run_sum\<close> (a Rust loop with \<^verbatim>\<open>?\<close>), and the shared list,
    map and sum lemmas.
  \<^item> \<open>Yaml_Value\<close>: \<open>marker\<close>, \<open>label\<close> (\<^verbatim>\<open>Label\<close>; \<open>label_eq\<close> compares
    names only, as the \<^verbatim>\<open>PartialEq\<close> impl), \<open>yvalue\<close> (\<^verbatim>\<open>Value\<close>: \<open>String\<close>,
    \<open>Sequence\<close>, \<open>Mapping\<close>), \<^verbatim>\<open>IndexMap\<close> as an association list with
    \<open>im_insert\<close>/\<open>im_get\<close> (insert replaces in place and keeps the first key),
    \<open>end_marker\<close>, and the well-formedness predicate \<open>wf_value\<close> (distinct key
    names in every mapping).
  \<^item> \<open>Yaml_Builder\<close>: \<open>event\<close> (\<^verbatim>\<open>yaml_rust::Event\<close>), the state record
    \<open>marked_yaml\<close> (\<open>anchors\<close>, \<open>current_label\<close>, \<open>object_stack\<close>, \<open>root\<close>), the
    mutators \<open>end_container\<close>, \<open>add_value\<close>, \<open>add_alias_value\<close>, the handler
    \<open>on_event\<close>, the driver \<open>run_events\<close> and \<open>parse\<close>; the state invariant
    \<open>wf_state\<close> and the step relation \<open>reachable\<close>. The
    \<^verbatim>\<open>expect("imbalanced parse events")\<close> panic is the value \<open>Inl (Panic _)\<close>.
  \<^item> \<open>Yaml_Pointer\<close>: \<open>path_chunk\<close> (\<^verbatim>\<open>PathChunk\<close>), \<open>get_step\<close> (one loop
    iteration), \<open>get_element\<close> and the recursive reference walk \<open>subtree\<close>.
  \<^item> \<open>Yaml_Bounds\<close>: the stack-depth count of a run and the persistence of the
    anchor table.
  \<^item> \<open>Yaml_Roundtrip\<close>: an emitter \<open>emit_document\<close> giving the events the parser
    produces for a tree (written from the specification's description of the event
    source), the reference \<open>rebuild\<close> of a tree with repeated keys, and the round-trip
    theorems.
  \<^item> \<open>Json_Value\<close>: \<open>json_value\<close> (\<^verbatim>\<open>serde_json::Value\<close>) and its field
    accessor, shared by the two theories below.
  \<^item> \<open>Telemetry_Config\<close>: the record \<open>config\<close>, the default helpers,
    \<open>config_default\<close>, \<^verbatim>\<open>HeaderName\<close> parsing, and the derived deserializer
    \<open>deserialize_config\<close> (\<open>visit_map_config\<close> over the loop step
    \<open>visit_entry\<close>, \<open>visit_seq_config\<close>), with the reference reading
    \<open>config_from_map\<close>. The environment and the URL parser are parameters; the
    panic of \<^verbatim>\<open>HeaderName::from_static\<close> is \<open>None\<close>.
  \<^item> \<open>Canned_Mocks\<close>: the fixture vectors \<open>accounts_mocks\<close>, \<open>reviews_mocks\<close>,
    \<open>products_mocks\<close> as written, and \<open>mock_table\<close>, the conversion and
    \<^verbatim>\<open>collect\<close> into the mock subgraph's map, behind \<open>accounts_subgraph\<close>,
    \<open>reviews_subgraph\<close>, \<open>products_subgraph\<close>. The conversions into the
    router's request and response types are parameters.
  \<^item> this theory: the property on a scalar-only document (C11) and the witnesses
    that apply the component theorems to concrete documents (the example document of
    the specification, a mapping with repeated keys, a complex key, a stream of two
    documents).

  \<^medskip>\<^bold>\<open>What is proved.\<close>
  \<^item> Round trip (C1, C4): the events emitted for any well-formed container tree are
    parsed back to exactly that tree, positions included. With repeated keys, each
    mapping keeps the keys in first-occurrence order with the last value.
  \<^item> Panics (C2): a run of the handler panics exactly when an end event arrives with
    an empty stack; this is the only failure.
  \<^item> Invariant (C3): every state reachable by \<open>on_event\<close> from the default satisfies
    \<open>wf_state\<close> (rule induction on \<open>reachable\<close>), so every parsed tree is well formed.
  \<^item> Navigator (C5 to C7): \<open>get_element\<close> equals the reference walk; a step of the
    wrong kind ends the walk; lookup by key name ignores positions.
  \<^item> Anchors and aliases (C8 to C10): an alias places a copy of the anchored
    value with the anchor's positions, and closing a container records it. An
    unresolved alias leaves the pending key behind, so the next scalar is stored
    under it.
  \<^item> Parse (C12, C13) and positions (C14): a scanner error is one configuration
    error; carriage returns do not matter; \<open>end_marker\<close> is the last position of
    the node and its descendant values in document order.
  \<^item> Findings (C10, C11, C15): an alias to an enclosing container or to a key
    shifts the following entries. A scalar-only document has no root. A complex
    (container) key is not stored in its mapping, and the value after it becomes a
    key.
  \<^item> Telemetry configuration (C16 to C23): defaults come from the environment on the
    deserialization path but not in \<^verbatim>\<open>Default\<close>. The object deserializer refines the
    field-by-field reading \<open>config_from_map\<close>, does not depend on entry order, and
    rejects unknown and repeated keys. A client name header is normalised and
    reads back to the same configuration. Nothing panics. Short arrays read as objects.
  \<^item> Streams (C24): with several documents in one stream, the loader keeps only
    the last document's tree.
  \<^item> Canned fixtures (C25): collecting each fixture list into the mock's hash map
    loses no pair, whatever the request and response conversions, as long as they keep
    the operation name.
  \<^item> Bounds and progress (C26, C27): after a run the stack depth is the starting
    depth plus start events minus end events. An anchor, once recorded, stays in the
    table, so a later alias to it takes the resolved branch: the pending key is
    consumed and the value is placed wherever the placement rule accepts it.

  \<^medskip>\<^bold>\<open>Bounds and fuel.\<close> No model needs fuel: every loop of the code is a
  structural recursion (\<open>run_sum\<close>, \<open>foldl\<close>) or has a termination proof
  (\<open>end_marker\<close>, by the size of the value). C23 is stated for arrays of one to
  five elements because the struct has five fields: a longer array is an
  \<^verbatim>\<open>invalid_length\<close> error, and an empty array lacks the endpoint, which has no
  default.

  \<^medskip>\<^bold>\<open>Not modelled.\<close> The \<^verbatim>\<open>yaml_rust\<close> scanner and parser are external: a
  parse is a function from the source text to its events and an optional scanner
  error. \<^verbatim>\<open>tracing::warn!\<close> has no effect on the state. The \<^verbatim>\<open>url\<close> crate's
  parser is a parameter. The 64 KiB limit on header names in the \<^verbatim>\<open>http\<close> crate and
  the JSON schema that \<^verbatim>\<open>schemars\<close> generates (beyond the two \<open>*_env_str\<close>
  defaults) are not modelled. For \<^verbatim>\<open>canned.rs\<close>, the router's \<^verbatim>\<open>Request\<close> and
  \<^verbatim>\<open>Response\<close> deserializers and \<^verbatim>\<open>MockSubgraph\<close> are not under \<^verbatim>\<open>src/\<close>:
  the conversions are parameters and the mock is its map.
\<close>

subsection \<open>The example document of the specification\<close>

abbreviation mk :: "nat \<Rightarrow> nat \<Rightarrow> nat \<Rightarrow> marker" where
  "mk i l c \<equiv> \<lparr>index = i, line = l, col = c\<rparr>"

abbreviation plain :: "string \<Rightarrow> event" where
  "plain s \<equiv> Scalar s Plain 0 None"

text \<open>The source text, and the events \<^verbatim>\<open>yaml_rust\<close> emits for it (markers:
  character index, line from 1, column from 0). The anchor \<^verbatim>\<open>&id001\<close> has id 1.\<close>

definition example_source :: string where
  "example_source =
     ''test:\<newline>  a: 4\<newline>  c: &id001\<newline>    - d\<newline>    - e\<newline>  l: *id001\<newline>''"

definition example_events :: "(event \<times> marker) list" where
  "example_events =
    [(StreamStart, mk 0 1 0), (DocumentStart, mk 0 1 0), (MappingStart 0, mk 0 1 0),
     (plain ''test'', mk 0 1 0), (MappingStart 0, mk 8 2 2),
     (plain ''a'', mk 8 2 2), (plain ''4'', mk 11 2 5),
     (plain ''c'', mk 15 3 2), (SequenceStart 1, mk 29 4 4),
     (plain ''d'', mk 31 4 6), (plain ''e'', mk 39 5 6), (SequenceEnd, mk 41 6 2),
     (plain ''l'', mk 43 6 2), (Alias 1, mk 46 6 5),
     (MappingEnd, mk 53 7 0), (MappingEnd, mk 53 7 0),
     (DocumentEnd, mk 53 7 0), (StreamEnd, mk 53 7 0)]"

definition example_scan :: event_source where
  "example_scan src =
     (if src = example_source then (example_events, None) else ([], Some ''unexpected input''))"

lemmas builder_eval =
  run_events_def add_value_def add_alias_value_def end_container_def Let_def
  marked_yaml_default_def label_eq_def label_from_def

text \<open>Witness for \<open>parse_loader_wf\<close>: the example document parses, and its
  loader satisfies the invariant.\<close>

theorem parse_loader_wf_witness:
  "\<exists>loader. parse example_scan example_source = Inr (Inr loader) \<and> wf_state loader"
proof -
  have "\<exists>loader. parse example_scan example_source = Inr (Inr loader)"
    by (simp add: parse_def example_scan_def example_source_def example_events_def builder_eval)
  then obtain loader where p: "parse example_scan example_source = Inr (Inr loader)" ..
  from p have "wf_state loader" by (rule parse_loader_wf)
  with p show ?thesis by blast
qed

subsection \<open>Round trips on concrete trees\<close>

text \<open>The example document without its alias, as a tree.\<close>

definition example_tree :: yvalue where
  "example_tree =
     (let test = \<lparr>name = ''test'', marker = Some (mk 0 1 0)\<rparr> in
      Mapping None
        [(test, Mapping (Some test)
            [(\<lparr>name = ''a'', marker = Some (mk 8 2 2)\<rparr>, String ''4'' (mk 11 2 5)),
             (\<lparr>name = ''c'', marker = Some (mk 15 3 2)\<rparr>,
              Sequence [String ''d'' (mk 31 4 6), String ''e'' (mk 39 5 6)] (mk 29 4 4))]
            (mk 8 2 2))]
        (mk 0 1 0))"

theorem parse_emitted_roundtrip_witness:
  "\<exists>loader. parse (\<lambda>_. (emit_document (mk 0 1 0) example_tree, None)) ''test'' = Inr (Inr loader)
     \<and> root loader = Some example_tree"
  by (rule parse_emitted_roundtrip) (simp_all add: example_tree_def Let_def)

text \<open>A mapping \<open>{a: 1, b: 2, a: 3}\<close>.\<close>

definition dup_entries :: "(label \<times> yvalue) list" where
  "dup_entries =
     [(\<lparr>name = ''a'', marker = Some (mk 0 1 0)\<rparr>, String ''1'' (mk 3 1 3)),
      (\<lparr>name = ''b'', marker = Some (mk 5 2 0)\<rparr>, String ''2'' (mk 8 2 3)),
      (\<lparr>name = ''a'', marker = Some (mk 10 3 0)\<rparr>, String ''3'' (mk 13 3 3))]"

theorem parse_emitted_duplicate_keys_witness:
  "\<exists>loader es'.
     parse (\<lambda>_. (emit_document (mk 0 1 0) (Mapping None dup_entries (mk 0 1 0)), None)) ''a: 1'' =
       Inr (Inr loader) \<and>
     root loader = Some (Mapping None es' (mk 0 1 0)) \<and> im_names es' = [''a'', ''b''] \<and>
     im_get (label_from ''a'') es' = Some (String ''3'' (mk 13 3 3))"
proof -
  have "emittable None (Mapping None dup_entries (mk 0 1 0))"
    by (simp add: dup_entries_def)
  from parse_emitted_duplicate_keys
    [of "\<lambda>_. (emit_document (mk 0 1 0) (Mapping None dup_entries (mk 0 1 0)), None)" "''a: 1''"
        "mk 0 1 0" dup_entries "mk 0 1 0", OF _ this]
  obtain loader es' where
    "parse (\<lambda>_. (emit_document (mk 0 1 0) (Mapping None dup_entries (mk 0 1 0)), None)) ''a: 1'' =
       Inr (Inr loader)"
    "root loader = Some (Mapping None es' (mk 0 1 0))"
    "im_names es' = rev (remdups (rev (im_names dup_entries)))"
    "\<forall>k. im_get k es' = map_option rebuild (im_get k (rev dup_entries))"
    by auto
  then show ?thesis
    by (auto simp: dup_entries_def label_eq_def label_from_def)
qed

subsection \<open>Anchors and aliases on concrete states\<close>

definition alias_state :: marked_yaml where
  "alias_state =
     marked_yaml_default\<lparr>anchors := [1 \<mapsto> String ''d'' (mk 31 4 6)],
                         object_stack := [(None, Sequence [] (mk 0 1 0), 0)]\<rparr>"

theorem alias_inserts_anchored_value_witness:
  "on_event alias_state (Alias 1) (mk 46 6 5) =
     Inr (alias_state\<lparr>current_label := None,
                      object_stack := [] @ [(None, Sequence [String ''d'' (mk 31 4 6)] (mk 0 1 0), 0)]\<rparr>)"
  by (rule alias_inserts_anchored_value) (simp add: alias_state_def marked_yaml_default_def)+

theorem close_records_anchor_witness:
  "\<exists>st'. on_event (marked_yaml_default\<lparr>object_stack :=
            [] @ [(None, Sequence [String ''d'' (mk 31 4 6)] (mk 29 4 4), 1)]\<rparr>) SequenceEnd (mk 41 6 2)
          = Inr st' \<and> anchors st' 1 = Some (Sequence [String ''d'' (mk 31 4 6)] (mk 29 4 4))"
  by (rule close_records_anchor) simp+

definition pending_y :: label where
  "pending_y = \<lparr>name = ''y'', marker = Some (mk 8 2 2)\<rparr>"

definition pending_state :: marked_yaml where
  "pending_state =
     marked_yaml_default\<lparr>current_label := Some pending_y,
                         object_stack := [(None, Mapping None [] (mk 8 2 2), 1)]\<rparr>"

theorem unresolved_alias_shifts_next_scalar_witness:
  "run_events pending_state [(Alias 1, mk 11 2 5), (Scalar ''z'' Plain 0 None, mk 16 3 2)] =
   Inr (pending_state\<lparr>current_label := None,
          anchors := (anchors pending_state)(0 \<mapsto> String ''z'' (mk 16 3 2)),
          object_stack := [] @ [(None, Mapping None (im_insert pending_y (String ''z'' (mk 16 3 2)) []) (mk 8 2 2), 1)]\<rparr>)"
  by (rule unresolved_alias_shifts_next_scalar) (simp add: pending_state_def marked_yaml_default_def)+

text \<open>
  C11. A document that is a single scalar has no root: \<^verbatim>\<open>add_value\<close> with no
  open container makes the scalar the pending key instead of dropping it or making it
  the root, so \<^verbatim>\<open>get_element\<close> finds nothing even for the empty pointer.
\<close>

theorem scalar_document_has_no_root:
  assumes "scan (filter (\<lambda>c. c \<noteq> CHR 0x0D) src) =
     ([(StreamStart, m0), (DocumentStart, m0), (Scalar s sty aid tag, m1),
       (DocumentEnd, m2), (StreamEnd, m2)], None)"
  shows "\<exists>loader. parse scan src = Inr (Inr loader) \<and> get_element loader [] = None \<and>
           current_label loader = Some \<lparr>name = s, marker = Some m1\<rparr>"
  using assms by (simp add: parse_def builder_eval get_element_def)

theorem scalar_document_has_no_root_witness:
  "\<exists>loader. parse (\<lambda>_. ([(StreamStart, mk 0 1 0), (DocumentStart, mk 0 1 0),
                          (Scalar ''hello'' Plain 0 None, mk 0 1 0),
                          (DocumentEnd, mk 5 1 5), (StreamEnd, mk 5 1 5)], None)) ''hello'' =
       Inr (Inr loader) \<and> get_element loader [] = None \<and>
     current_label loader = Some \<lparr>name = ''hello'', marker = Some (mk 0 1 0)\<rparr>"
  by (rule scalar_document_has_no_root) simp

subsection \<open>Parsing on concrete inputs\<close>

theorem parse_scan_error_witness:
  "parse (\<lambda>_. ([(StreamStart, mk 0 1 0), (DocumentStart, mk 0 1 0), (MappingStart 0, mk 0 1 0)],
               Some ''mapping values are not allowed in this context'')) ''a: b: c'' =
     Inr (Inl (InvalidConfiguration ''could not parse yaml''
                 ''mapping values are not allowed in this context''))"
  by (rule parse_scan_error) simp+

theorem parse_ignores_carriage_returns_witness:
  "parse example_scan (''a: 1'' @ [CHR 0x0D, CHR 0x0A]) = parse example_scan (''a: 1'' @ [CHR 0x0A])"
  by (rule parse_ignores_carriage_returns) simp

subsection \<open>Complex keys\<close>

text \<open>The document \<^verbatim>\<open>? - a\<close> / \<^verbatim>\<open>: b\<close>: after the mapping has opened, the
  events of the sequence key and then the scalar value.\<close>

definition complex_key :: yvalue where
  "complex_key = Sequence [String ''a'' (mk 4 1 4)] (mk 2 1 2)"

definition complex_key_state :: marked_yaml where
  "complex_key_state = marked_yaml_default\<lparr>object_stack := [(None, Mapping None [] (mk 0 1 0), 0)]\<rparr>"

theorem container_key_dropped_witness:
  "\<exists>st'. run_events complex_key_state (emit complex_key @ [(plain ''b'', mk 8 2 2)]) = Inr st' \<and>
     object_stack st' = [(None, Mapping None [] (mk 0 1 0), 0)] \<and> root st' = Some complex_key \<and>
     current_label st' = Some \<lparr>name = ''b'', marker = Some (mk 8 2 2)\<rparr>"
proof -
  have "emittable None complex_key" "is_container complex_key"
    "current_label complex_key_state = None"
    "object_stack complex_key_state = [] @ [(None, Mapping None [] (mk 0 1 0), 0)]"
    by (simp_all add: complex_key_def complex_key_state_def marked_yaml_default_def)
  from container_key_dropped [OF this, of "''b''" Plain 0 None "mk 8 2 2"]
  show ?thesis by (simp add: complex_key_state_def complex_key_def)
qed


subsection \<open>A stream of two documents\<close>

text \<open>The source \<^verbatim>\<open>a: 1\<close>, \<^verbatim>\<open>---\<close>, \<^verbatim>\<open>b: 2\<close>: two documents, each a one-entry
  mapping.\<close>

definition multi_source :: string where
  "multi_source = ''a: 1\<newline>---\<newline>b: 2\<newline>''"

definition multi_doc1 :: yvalue where
  "multi_doc1 = Mapping None [(\<lparr>name = ''a'', marker = Some (mk 0 1 0)\<rparr>, String ''1'' (mk 3 1 3))] (mk 0 1 0)"

definition multi_doc2 :: yvalue where
  "multi_doc2 = Mapping None [(\<lparr>name = ''b'', marker = Some (mk 9 3 0)\<rparr>, String ''2'' (mk 12 3 3))] (mk 9 3 0)"

definition multi_scan :: event_source where
  "multi_scan src =
     (if src = multi_source then (emit_stream (mk 0 1 0) [multi_doc1, multi_doc2], None)
      else ([], Some ''unexpected input''))"

theorem parse_multi_document_keeps_last_witness:
  "\<exists>loader. parse multi_scan multi_source = Inr (Inr loader) \<and> root loader = Some multi_doc2 \<and>
     get_element loader [Property ''a''] = None"
proof -
  have s: "multi_scan (filter (\<lambda>c. c \<noteq> CHR 0x0D) multi_source) =
      (emit_stream (mk 0 1 0) [multi_doc1, multi_doc2], None)"
    by (simp add: multi_scan_def multi_source_def)
  have d: "list_all (\<lambda>v. emittable None v \<and> wf_value v \<and> is_container v) [multi_doc1, multi_doc2]"
    by (simp add: multi_doc1_def multi_doc2_def)
  have n: "[multi_doc1, multi_doc2] \<noteq> []" by simp
  from parse_multi_document_keeps_last [where scan = multi_scan and src = multi_source, OF s n d]
  obtain loader
    where "parse multi_scan multi_source = Inr (Inr loader)" "root loader = Some multi_doc2"
    by auto
  then show ?thesis
    by (simp add: get_element_def get_step_def multi_doc2_def label_eq_def label_from_def)
qed

end
